theory Spec2Isabelle
  imports Complex_Main
begin

section \<open>Values, arrays and errors\<close>

text \<open>
  The notebook computes on numpy \<open>float64\<close> arrays. The model keeps the exact real
  value of every finite result (no rounding, no overflow, no underflow) and keeps the
  three kinds of non-finite result that numpy produces \<^emph>\<open>without\<close> raising:
  \<open>+inf\<close>, \<open>-inf\<close> and \<open>nan\<close>. Zero has no sign: \<open>x / 0\<close> takes the sign of \<open>x\<close>.
\<close>

datatype npfloat = Fin real | PInf | NInf | NaN

datatype error = ValueError | IndexError | LinAlgError

type_synonym vec = "npfloat list"
type_synonym mat = "npfloat list list"

text \<open>
  A one-dimensional array is the list of its entries and a two-dimensional array the
  list of its rows, all of one length. An array without rows is \<open>[]\<close>; its number of
  columns is then taken to be 0. \<open>np.cov\<close> returns a zero-dimensional array for
  a single variable, hence the two shapes of a covariance.
\<close>

datatype ndarray = Scalar npfloat | Matrix mat

fun is_fin :: "npfloat \<Rightarrow> bool" where
  "is_fin (Fin a) = True"
| "is_fin x = False"

fun the_fin :: "npfloat \<Rightarrow> real" where
  "the_fin (Fin a) = a"
| "the_fin x = 0"

fun np_neg :: "npfloat \<Rightarrow> npfloat" where
  "np_neg (Fin a) = Fin (- a)"
| "np_neg PInf = NInf"
| "np_neg NInf = PInf"
| "np_neg NaN = NaN"

fun np_add :: "npfloat \<Rightarrow> npfloat \<Rightarrow> npfloat" where
  "np_add (Fin a) (Fin b) = Fin (a + b)"
| "np_add NaN y = NaN"
| "np_add x NaN = NaN"
| "np_add PInf NInf = NaN"
| "np_add NInf PInf = NaN"
| "np_add PInf y = PInf"
| "np_add x PInf = PInf"
| "np_add NInf y = NInf"
| "np_add x NInf = NInf"

definition np_sub :: "npfloat \<Rightarrow> npfloat \<Rightarrow> npfloat" where
  "np_sub x y = np_add x (np_neg y)"

fun np_mul :: "npfloat \<Rightarrow> npfloat \<Rightarrow> npfloat" where
  "np_mul (Fin a) (Fin b) = Fin (a * b)"
| "np_mul NaN y = NaN"
| "np_mul x NaN = NaN"
| "np_mul (Fin a) PInf = (if 0 < a then PInf else if a < 0 then NInf else NaN)"
| "np_mul (Fin a) NInf = (if 0 < a then NInf else if a < 0 then PInf else NaN)"
| "np_mul PInf (Fin b) = (if 0 < b then PInf else if b < 0 then NInf else NaN)"
| "np_mul NInf (Fin b) = (if 0 < b then NInf else if b < 0 then PInf else NaN)"
| "np_mul PInf PInf = PInf"
| "np_mul PInf NInf = NInf"
| "np_mul NInf PInf = NInf"
| "np_mul NInf NInf = PInf"

text \<open>Division never raises on arrays: numpy warns and stores \<open>inf\<close> or \<open>nan\<close>.\<close>

fun np_div :: "npfloat \<Rightarrow> npfloat \<Rightarrow> npfloat" where
  "np_div (Fin a) (Fin b) =
     (if b \<noteq> 0 then Fin (a / b) else if 0 < a then PInf else if a < 0 then NInf else NaN)"
| "np_div NaN y = NaN"
| "np_div x NaN = NaN"
| "np_div (Fin a) PInf = Fin 0"
| "np_div (Fin a) NInf = Fin 0"
| "np_div PInf (Fin b) = (if 0 \<le> b then PInf else NInf)"
| "np_div NInf (Fin b) = (if 0 \<le> b then NInf else PInf)"
| "np_div PInf PInf = NaN"
| "np_div PInf NInf = NaN"
| "np_div NInf PInf = NaN"
| "np_div NInf NInf = NaN"

fun np_sqrt :: "npfloat \<Rightarrow> npfloat" where
  "np_sqrt (Fin a) = (if a < 0 then NaN else Fin (sqrt a))"
| "np_sqrt PInf = PInf"
| "np_sqrt NInf = NaN"
| "np_sqrt NaN = NaN"

fun np_exp :: "npfloat \<Rightarrow> npfloat" where
  "np_exp (Fin a) = Fin (exp a)"
| "np_exp PInf = PInf"
| "np_exp NInf = Fin 0"
| "np_exp NaN = NaN"

definition np_sum :: "vec \<Rightarrow> npfloat" where
  "np_sum xs = foldr np_add xs (Fin 0)"

definition ncols :: "'a list list \<Rightarrow> nat" where
  "ncols m = (case m of [] \<Rightarrow> 0 | r # _ \<Rightarrow> length r)"

definition column :: "'a list list \<Rightarrow> nat \<Rightarrow> 'a list" where
  "column m j = map (\<lambda>r. r ! j) m"

definition lift_vec :: "real list \<Rightarrow> vec" where
  "lift_vec xs = map Fin xs"

definition lift_mat :: "real list list \<Rightarrow> mat" where
  "lift_mat m = map (map Fin) m"

definition is_square :: "'a list list \<Rightarrow> bool" where
  "is_square m = list_all (\<lambda>r. length r = length m) m"

definition all_fin :: "mat \<Rightarrow> bool" where
  "all_fin m = list_all (list_all is_fin) m"

section \<open>Linear algebra (\<open>np.linalg\<close> and \<open>np.dot\<close>)\<close>

text \<open>
  Determinant and inverse of a square matrix of reals: expansion along the first row,
  and the adjugate divided by the determinant.
\<close>

definition del_nth :: "nat \<Rightarrow> 'a list \<Rightarrow> 'a list" where
  "del_nth j r = take j r @ drop (Suc j) r"

function det :: "real list list \<Rightarrow> real" where
  "det [] = 1"
| "det (r # rs) =
     sum_list (map (\<lambda>j. (- 1) ^ j * (r ! j) * det (map (del_nth j) rs)) [0..<length r])"
  by pat_completeness auto
termination
  by (relation "measure length") auto

definition minor :: "real list list \<Rightarrow> nat \<Rightarrow> nat \<Rightarrow> real list list" where
  "minor m i j = map (del_nth j) (del_nth i m)"

definition inverse_mat :: "real list list \<Rightarrow> real list list" where
  "inverse_mat m =
     map (\<lambda>i. map (\<lambda>j. (- 1) ^ (i + j) * det (minor m j i) / det m) [0..<length m])
       [0..<length m]"

text \<open>
  \<open>np.linalg.det\<close> and \<open>np.linalg.inv\<close> are LAPACK eliminations in \<open>float64\<close>; their
  code is not part of the repository, and they are parameters of the model. What the
  density does depends on what they return: the sign of the determinant that
  \<open>det\<close> returns, and whether \<open>inv\<close> raises (it does on an exactly zero pivot) or
  returns a matrix.
\<close>

record linalg =
  np_linalg_det :: "ndarray \<Rightarrow> error + npfloat"
  np_linalg_inv :: "ndarray \<Rightarrow> error + mat"

text \<open>
  To run the model on a concrete matrix the two functions need values. \<open>exact_det\<close>
  and \<open>exact_inv\<close> compute in exact arithmetic: \<open>LinAlgError\<close> on an array that is not
  at least two-dimensional or not square, and from \<open>exact_inv\<close> on a matrix whose
  determinant is 0. They are what numpy returns up to rounding on a matrix that is
  not close to singular. On a matrix whose exact determinant is 0 numpy's rounded
  elimination can keep a tiny nonzero pivot, return a nonzero determinant and an
  inverse, and not raise; no statement about the density below rests on
  \<open>exact_det\<close> or \<open>exact_inv\<close> there. On a matrix with a non-finite entry they
  return \<open>nan\<close>.
\<close>

definition exact_det :: "ndarray \<Rightarrow> error + npfloat" where
  "exact_det a =
     (case a of
        Scalar v \<Rightarrow> Inl LinAlgError
      | Matrix m \<Rightarrow>
          if \<not> is_square m then Inl LinAlgError
          else if all_fin m then Inr (Fin (det (map (map the_fin) m)))
          else Inr NaN)"

definition exact_inv :: "ndarray \<Rightarrow> error + mat" where
  "exact_inv a =
     (case a of
        Scalar v \<Rightarrow> Inl LinAlgError
      | Matrix m \<Rightarrow>
          if \<not> is_square m then Inl LinAlgError
          else if \<not> all_fin m then Inr (map (map (\<lambda>v. NaN)) m)
          else if det (map (map the_fin) m) = 0 then Inl LinAlgError
          else Inr (lift_mat (inverse_mat (map (map the_fin) m))))"

definition exact_linalg :: linalg where
  "exact_linalg = \<lparr> np_linalg_det = exact_det, np_linalg_inv = exact_inv \<rparr>"

text \<open>
  \<open>x - mean\<close> on one-dimensional arrays broadcasts an array of length 1 and raises
  \<open>ValueError\<close> on any other two different lengths.
\<close>

definition np_sub_vec :: "vec \<Rightarrow> vec \<Rightarrow> error + vec" where
  "np_sub_vec x y =
     (if length x = length y then Inr (map2 np_sub x y)
      else if length y = 1 then Inr (map (\<lambda>a. np_sub a (hd y)) x)
      else if length x = 1 then Inr (map (\<lambda>b. np_sub (hd x) b) y)
      else Inl ValueError)"

text \<open>\<open>np.dot\<close> of a vector with a matrix, and of two vectors: no broadcasting.\<close>

definition np_dot_vec_mat :: "vec \<Rightarrow> mat \<Rightarrow> error + vec" where
  "np_dot_vec_mat v m =
     (if length v \<noteq> length m then Inl ValueError
      else Inr (map (\<lambda>j. np_sum (map2 np_mul v (column m j))) [0..<ncols m]))"

definition np_dot_vec_vec :: "vec \<Rightarrow> vec \<Rightarrow> error + npfloat" where
  "np_dot_vec_vec u v =
     (if length u \<noteq> length v then Inl ValueError else Inr (np_sum (map2 np_mul u v)))"

section \<open>The density written from scratch\<close>

text \<open>
  \<^verbatim>\<open>
  def multivariate_gaussian(x, mean, cov):
      k = len(mean)
      denom = np.sqrt(((2 * np.pi) ** k) * np.linalg.det(cov))
      diff = x - mean
      numerator = np.exp(-0.5 * np.dot(np.dot(diff.T, np.linalg.inv(cov)), diff))
      gaussian = numerator / denom
      return gaussian
  \<close>
  The argument \<open>la\<close> holds the two routines of \<open>np.linalg\<close> that the function calls.
\<close>

definition multivariate_gaussian :: "linalg \<Rightarrow> vec \<Rightarrow> vec \<Rightarrow> ndarray \<Rightarrow> error + npfloat" where
  "multivariate_gaussian la x mean cov =
     (let k = length mean in
      (case np_linalg_det la cov of Inl e \<Rightarrow> Inl e | Inr d \<Rightarrow>
      (let denom = np_sqrt (np_mul (Fin ((2 * pi) ^ k)) d) in
      (case np_sub_vec x mean of Inl e \<Rightarrow> Inl e | Inr diff \<Rightarrow>
      (case np_linalg_inv la cov of Inl e \<Rightarrow> Inl e | Inr ci \<Rightarrow>
      (case np_dot_vec_mat diff ci of Inl e \<Rightarrow> Inl e | Inr v \<Rightarrow>
      (case np_dot_vec_vec v diff of Inl e \<Rightarrow> Inl e | Inr q \<Rightarrow>
      (let numerator = np_exp (np_mul (Fin (- (1 / 2))) q) in
       Inr (np_div numerator denom)))))))))"

text \<open>
  The density as the specification writes it, over the reals:
  \<open>(2\<pi>)\<^sup>-\<^sup>D\<^sup>/\<^sup>2 \<cdot> det(cov)\<^sup>-\<^sup>1\<^sup>/\<^sup>2 \<cdot> exp(-\<onehalf> (x - mean)\<^sup>T cov\<^sup>-\<^sup>1 (x - mean))\<close>.
  \<open>density_formula\<close> is the formula on a determinant \<open>d\<close> and an inverse \<open>ci\<close> as
  given; \<open>density_spec\<close> is the formula on the exact determinant and inverse of the
  covariance \<open>c\<close>.
\<close>

definition quadratic_form :: "real list \<Rightarrow> real list \<Rightarrow> real list list \<Rightarrow> real" where
  "quadratic_form x mean ci =
     (\<Sum>i<length mean. \<Sum>j<length mean. (x ! i - mean ! i) * (ci ! i ! j) * (x ! j - mean ! j))"

definition density_formula :: "real list \<Rightarrow> real list \<Rightarrow> real \<Rightarrow> real list list \<Rightarrow> real" where
  "density_formula x mean d ci =
     (2 * pi) powr (- real (length mean) / 2) * d powr (- 1 / 2)
       * exp (- (1 / 2) * quadratic_form x mean ci)"

definition mahalanobis :: "real list \<Rightarrow> real list \<Rightarrow> real list list \<Rightarrow> real" where
  "mahalanobis x mean c =
     (\<Sum>i<length mean. \<Sum>j<length mean.
        (x ! i - mean ! i) * (inverse_mat c ! i ! j) * (x ! j - mean ! j))"

definition density_spec :: "real list \<Rightarrow> real list \<Rightarrow> real list list \<Rightarrow> real" where
  "density_spec x mean c =
     (2 * pi) powr (- real (length mean) / 2) * det c powr (- 1 / 2)
       * exp (- (1 / 2) * mahalanobis x mean c)"

section \<open>Library functions the notebook calls\<close>

text \<open>
  The notebook's first GMM cell calls four functions of numpy and scipy whose code is
  not part of the repository. They are parameters of the model:
  \<^item> \<open>np.random.seed(s)\<close> replaces the state of numpy's global generator by the state
    that the seed \<open>s\<close> determines;
  \<^item> \<open>np.random.choice(n, size, replace=False)\<close> takes the first \<open>size\<close> entries of
    \<open>permutation(n)\<close>, which reads and advances the global generator;
  \<^item> \<open>np.cov(data, rowvar=False)\<close>;
  \<^item> \<open>multivariate_normal.pdf(data, mean=m, cov=c)\<close>, the densities of all points of
    \<open>data\<close> at once; it raises on a covariance it does not accept.
  The type \<open>'g\<close> is the state of the global generator.
\<close>

record 'g numpy =
  np_random_seed :: "nat \<Rightarrow> 'g"
  np_random_permutation :: "'g \<Rightarrow> nat \<Rightarrow> nat list \<times> 'g"
  np_cov :: "mat \<Rightarrow> ndarray"
  multivariate_normal_pdf :: "mat \<Rightarrow> vec \<Rightarrow> ndarray \<Rightarrow> error + vec"

text \<open>
  \<open>choice\<close> raises \<open>ValueError\<close> when the population is empty and a sample is asked
  for, when the sample is larger than the population, and when the size is negative.
\<close>

definition np_random_choice :: "'g numpy \<Rightarrow> 'g \<Rightarrow> nat \<Rightarrow> int \<Rightarrow> (error + nat list) \<times> 'g" where
  "np_random_choice lib g n sz =
     (if (n = 0 \<and> sz \<noteq> 0) \<or> int n < sz \<or> sz < 0 then (Inl ValueError, g)
      else (case np_random_permutation lib g n of
              (perm, g') \<Rightarrow> (Inr (take (nat sz) perm), g')))"

text \<open>The first error of a sequence of computations, or all their results.\<close>

fun sequence_err :: "(error + 'a) list \<Rightarrow> error + 'a list" where
  "sequence_err [] = Inr []"
| "sequence_err (x # xs) =
     (case x of
        Inl e \<Rightarrow> Inl e
      | Inr v \<Rightarrow> (case sequence_err xs of Inl e \<Rightarrow> Inl e | Inr vs \<Rightarrow> Inr (v # vs)))"

section \<open>The Gaussian mixture model\<close>

type_synonym density = "mat \<Rightarrow> vec \<Rightarrow> ndarray \<Rightarrow> error + vec"

text \<open>
  \<^verbatim>\<open>
  def initialize_parameters(data, num_components):
      np.random.seed(42)
      means = data[np.random.choice(data.shape[0], num_components, replace=False)]
      covariance = [np.cov(data, rowvar=False)] * num_components
      weights = np.ones(num_components) / num_components
      return means, covariance, weights
  \<close>
  The function takes the state \<open>g\<close> of the global generator as it finds it and returns
  the state it leaves behind.
\<close>

definition initialize_parameters ::
  "'g numpy \<Rightarrow> 'g \<Rightarrow> mat \<Rightarrow> int \<Rightarrow> (error + mat \<times> ndarray list \<times> vec) \<times> 'g" where
  "initialize_parameters lib g data num_components =
     (let g1 = np_random_seed lib 42 in
      (case np_random_choice lib g1 (length data) num_components of
         (Inl e, g2) \<Rightarrow> (Inl e, g2)
       | (Inr idx, g2) \<Rightarrow>
           if \<not> list_all (\<lambda>i. i < length data) idx then (Inl IndexError, g2)
           else
             (let means = map (\<lambda>i. data ! i) idx;
                  covariance = replicate (nat num_components) (np_cov lib data);
                  weights = map (\<lambda>one. np_div one (Fin (of_int num_components)))
                              (replicate (nat num_components) (Fin 1))
              in (Inr (means, covariance, weights), g2))))"

text \<open>
  \<^verbatim>\<open>
  def e_step(data, weights, means, covariances, num_components):
      prior_pi = np.zeros((data.shape[0], num_components))
      for i in range(num_components):
          prior_pi[:, i] = weights[i] * multivariate_normal.pdf(data, mean=means[i], cov=covariances[i])
      prior_pi /= prior_pi.sum(1)[:, np.newaxis]
      return prior_pi
  \<close>
  \<open>e_step_column\<close> is one pass of the loop: the column it stores. An array of one
  entry is broadcast over the column, any other wrong length raises.
\<close>

definition e_step_column :: "density \<Rightarrow> mat \<Rightarrow> vec \<Rightarrow> mat \<Rightarrow> ndarray list \<Rightarrow> nat \<Rightarrow> error + vec" where
  "e_step_column pdf data weights means covariances i =
     (if length weights \<le> i \<or> length means \<le> i \<or> length covariances \<le> i then Inl IndexError
      else (case pdf data (means ! i) (covariances ! i) of
              Inl e \<Rightarrow> Inl e
            | Inr p \<Rightarrow>
                if length p = length data then Inr (map (np_mul (weights ! i)) p)
                else if length p = 1
                  then Inr (replicate (length data) (np_mul (weights ! i) (hd p)))
                else Inl ValueError))"

definition e_step :: "density \<Rightarrow> mat \<Rightarrow> vec \<Rightarrow> mat \<Rightarrow> ndarray list \<Rightarrow> int \<Rightarrow> error + mat" where
  "e_step pdf data weights means covariances num_components =
     (if num_components < 0 then Inl ValueError
      else (case sequence_err (map (e_step_column pdf data weights means covariances)
                                 [0..<nat num_components]) of
              Inl e \<Rightarrow> Inl e
            | Inr cols \<Rightarrow>
                (let prior_pi = map (\<lambda>n. map (\<lambda>c. c ! n) cols) [0..<length data]
                 in Inr (map (\<lambda>row. map (\<lambda>v. np_div v (np_sum row)) row) prior_pi))))"

text \<open>
  \<^verbatim>\<open>
  def m_step(data, prior_pi, num_components):
      n_k = prior_pi.sum(axis=0)
      weights = n_k / data.shape[0]
      means = np.dot(prior_pi.T, data) / n_k[:, np.newaxis]
      covariance = []
      for i in range(num_components):
          diff_mat = data - means[i]
          weighted_diff = diff_mat.T * prior_pi[:, i]
          covariance.append(np.dot(weighted_diff, diff_mat) / n_k[i])
      return weights, means, covariance
  \<close>
  \<open>m_step_covariance\<close> is one pass of the loop: the matrix it appends.
\<close>

definition m_step_covariance :: "mat \<Rightarrow> mat \<Rightarrow> vec \<Rightarrow> mat \<Rightarrow> nat \<Rightarrow> error + ndarray" where
  "m_step_covariance data prior_pi n_k means i =
     (if length means \<le> i then Inl IndexError
      else
        (let diff_mat = map (\<lambda>row. map2 np_sub row (means ! i)) data;
             weighted_diff = map (\<lambda>d. map2 np_mul (column diff_mat d) (column prior_pi i))
                               [0..<ncols data]
         in Inr (Matrix
              (map (\<lambda>wrow. map (\<lambda>e. np_div (np_sum (map2 np_mul wrow (column diff_mat e)))
                                         (n_k ! i))
                               [0..<ncols data])
                 weighted_diff))))"

definition m_step :: "mat \<Rightarrow> mat \<Rightarrow> int \<Rightarrow> error + vec \<times> mat \<times> ndarray list" where
  "m_step data prior_pi num_components =
     (let n_k = map (\<lambda>k. np_sum (column prior_pi k)) [0..<ncols prior_pi];
          weights = map (\<lambda>s. np_div s (Fin (real (length data)))) n_k
      in if length prior_pi \<noteq> length data then Inl ValueError
         else
           (let means =
                  map (\<lambda>k. map (\<lambda>d. np_div (np_sum (map2 np_mul (column prior_pi k) (column data d)))
                                         (n_k ! k))
                               [0..<ncols data])
                    [0..<ncols prior_pi]
            in (case sequence_err (map (m_step_covariance data prior_pi n_k means)
                                     [0..<nat num_components]) of
                  Inl e \<Rightarrow> Inl e
                | Inr covariance \<Rightarrow> Inr (weights, means, covariance))))"

text \<open>
  \<^verbatim>\<open>
  def gmm_step(data, num_components, max_iters=100):
      means, covariances, weights = initialize_parameters(data, num_components)
      for iteration in range(max_iters):
          prior_pi = e_step(data, weights, means, covariances, num_components)
          weights, means, covariances = m_step(data, prior_pi, num_components)
      return weights, means, covariances
  \<close>
  \<open>gmm_loop\<close> is the \<open>for\<close> loop with \<open>n\<close> passes left; the first component of its
  state counts the passes it has completed. \<open>gmm_run\<close> is the function with that count
  kept, \<open>gmm_step\<close> the function as it returns.
\<close>

type_synonym params = "vec \<times> mat \<times> ndarray list"

fun gmm_loop :: "density \<Rightarrow> mat \<Rightarrow> int \<Rightarrow> nat \<Rightarrow> nat \<times> params \<Rightarrow> error + nat \<times> params" where
  "gmm_loop pdf data num_components 0 s = Inr s"
| "gmm_loop pdf data num_components (Suc n) (passes, weights, means, covariances) =
     (case e_step pdf data weights means covariances num_components of
        Inl e \<Rightarrow> Inl e
      | Inr prior_pi \<Rightarrow>
          (case m_step data prior_pi num_components of
             Inl e \<Rightarrow> Inl e
           | Inr p \<Rightarrow> gmm_loop pdf data num_components n (Suc passes, p)))"

definition gmm_run :: "'g numpy \<Rightarrow> 'g \<Rightarrow> mat \<Rightarrow> int \<Rightarrow> int \<Rightarrow> (error + nat \<times> params) \<times> 'g" where
  "gmm_run lib g data num_components max_iters =
     (case initialize_parameters lib g data num_components of
        (Inl e, g') \<Rightarrow> (Inl e, g')
      | (Inr (means, covariances, weights), g') \<Rightarrow>
          (gmm_loop (multivariate_normal_pdf lib) data num_components (nat max_iters)
             (0, weights, means, covariances), g'))"

definition gmm_step :: "'g numpy \<Rightarrow> 'g \<Rightarrow> mat \<Rightarrow> int \<Rightarrow> int \<Rightarrow> (error + params) \<times> 'g" where
  "gmm_step lib g data num_components max_iters =
     (case gmm_run lib g data num_components max_iters of
        (Inl e, g') \<Rightarrow> (Inl e, g')
      | (Inr (passes, p), g') \<Rightarrow> (Inr p, g'))"

section \<open>A concrete library\<close>

text \<open>
  To run the model on a concrete dataset the four library functions need values.
  \<^item> The second GMM cell of the notebook evaluates the same entries of \<open>prior_pi\<close> point
    by point with its own \<open>multivariate_gaussian\<close>; \<open>scratch_pdf\<close> is that density on
    all points of the dataset, with the determinant and the inverse computed exactly.
  \<^item> \<open>sample_cov\<close> is the unbiased sample covariance that \<open>np.cov(data, rowvar=False)\<close>
    computes for a dataset of at least two points: the matrix for two or more
    features, a zero-dimensional array for one.
  \<^item> The generator is a stand-in: its state is a number, the seed \<open>s\<close> sets it to \<open>s\<close>,
    and \<open>permutation(n)\<close> rotates \<open>0, \<dots>, n - 1\<close> by the state and increments it.
\<close>

definition scratch_pdf :: density where
  "scratch_pdf data mean cov =
     sequence_err (map (\<lambda>x. multivariate_gaussian exact_linalg x mean cov) data)"

definition sample_cov :: "mat \<Rightarrow> ndarray" where
  "sample_cov data =
     (let n = length data; d = ncols data;
          avg = map (\<lambda>j. np_div (np_sum (column data j)) (Fin (real n))) [0..<d];
          x = map (\<lambda>row. map2 np_sub row avg) data;
          fact = np_div (Fin 1) (Fin (real n - 1));
          c = map (\<lambda>i. map (\<lambda>j. np_mul (np_sum (map2 np_mul (column x i) (column x j))) fact)
                           [0..<d])
                [0..<d]
      in if d = 1 then Scalar (c ! 0 ! 0) else Matrix c)"

definition rotation_permutation :: "nat \<Rightarrow> nat \<Rightarrow> nat list \<times> nat" where
  "rotation_permutation g n = (rotate g [0..<n], Suc g)"

definition notebook_lib :: "nat numpy" where
  "notebook_lib =
     \<lparr> np_random_seed = (\<lambda>s. s),
       np_random_permutation = rotation_permutation,
       np_cov = sample_cov,
       multivariate_normal_pdf = scratch_pdf \<rparr>"

section \<open>The update formulas as the specification writes them\<close>

text \<open>
  Over the reals, for a dataset \<open>x\<close> of \<open>N\<close> points and an \<open>N \<times> K\<close> matrix \<open>r\<close> of
  responsibilities: the effective count \<open>n\<^sub>k = \<Sum>\<^sub>n r(n,k)\<close>, the weight \<open>n\<^sub>k / N\<close>,
  the mean \<open>(\<Sum>\<^sub>n r(n,k) \<cdot> x\<^sub>n) / n\<^sub>k\<close> and the covariance
  \<open>(\<Sum>\<^sub>n r(n,k) \<cdot> (x\<^sub>n - mean\<^sub>k)(x\<^sub>n - mean\<^sub>k)\<^sup>T) / n\<^sub>k\<close>, entry by entry, around the
  mean of the same update. The responsibility of the E-step is
  \<open>weight\<^sub>k \<cdot> density\<^sub>k(x\<^sub>n) / \<Sum>\<^sub>j weight\<^sub>j \<cdot> density\<^sub>j(x\<^sub>n)\<close>, where \<open>dens k\<close> lists the
  densities of all points under component \<open>k\<close>.
\<close>

definition effective_count :: "real list list \<Rightarrow> nat \<Rightarrow> real" where
  "effective_count r k = (\<Sum>n<length r. r ! n ! k)"

definition weight_spec :: "real list list \<Rightarrow> real list list \<Rightarrow> nat \<Rightarrow> real" where
  "weight_spec x r k = effective_count r k / real (length x)"

definition mean_spec :: "real list list \<Rightarrow> real list list \<Rightarrow> nat \<Rightarrow> nat \<Rightarrow> real" where
  "mean_spec x r k d = (\<Sum>n<length x. r ! n ! k * x ! n ! d) / effective_count r k"

definition covariance_spec ::
  "real list list \<Rightarrow> real list list \<Rightarrow> nat \<Rightarrow> nat \<Rightarrow> nat \<Rightarrow> real" where
  "covariance_spec x r k d e =
     (\<Sum>n<length x. r ! n ! k * ((x ! n ! d - mean_spec x r k d) * (x ! n ! e - mean_spec x r k e)))
       / effective_count r k"

definition responsibility :: "real list \<Rightarrow> (nat \<Rightarrow> real list) \<Rightarrow> nat \<Rightarrow> nat \<Rightarrow> nat \<Rightarrow> real" where
  "responsibility ws dens K n k = ws ! k * dens k ! n / (\<Sum>j<K. ws ! j * dens j ! n)"

section \<open>Finite arrays compute as the reals do\<close>

lemma np_sum_Fin: "np_sum (map Fin xs) = Fin (sum_list xs)"
  by (induction xs) (simp_all add: np_sum_def)

lemma all_fin_lift: "all_fin (lift_mat c)"
  by (simp add: all_fin_def lift_mat_def list_all_iff)

lemma unlift_lift: "map (map the_fin) (lift_mat c) = c"
  by (simp add: lift_mat_def comp_def map_idI)

lemma is_square_lift: "is_square (lift_mat c) = is_square c"
  by (simp add: is_square_def lift_mat_def list_all_iff)

lemma length_lift_vec: "length (lift_vec v) = length v"
  by (simp add: lift_vec_def)

lemma length_lift_mat: "length (lift_mat m) = length m"
  by (simp add: lift_mat_def)

lemma lift_vec_map: "lift_vec (map f xs) = map (\<lambda>x. Fin (f x)) xs"
  by (simp add: lift_vec_def)

lemma ncols_lift: "ncols (lift_mat m) = ncols m"
  by (cases m) (simp_all add: ncols_def lift_mat_def)

lemma map2_np_sub_Fin: "map2 np_sub (map Fin x) (map Fin y) = map Fin (map2 (-) x y)"
  by (induction x y rule: list_induct2') (simp_all add: np_sub_def)

lemma map2_np_mul_Fin: "map2 np_mul (map Fin x) (map Fin y) = map Fin (map2 (*) x y)"
  by (induction x y rule: list_induct2') simp_all

lemma column_lift:
  "\<forall>r\<in>set m. j < length r \<Longrightarrow> column (lift_mat m) j = map Fin (column m j)"
  by (simp add: column_def lift_mat_def)

lemma sum_list_map2_nth:
  "length xs = length ys \<Longrightarrow>
   sum_list (map2 f xs ys) = (\<Sum>i<length xs. f (xs ! i) (ys ! i) :: real)"
  by (simp add: sum_list_sum_nth atLeast0LessThan)

lemma sum_list_upt: "sum_list (map f [0..<n]) = (\<Sum>i<n. f i :: real)"
  by (simp add: interv_sum_list_conv_sum_set_nat atLeast0LessThan)

lemma np_sub_vec_Fin:
  "length x = length y \<Longrightarrow>
   np_sub_vec (lift_vec x) (lift_vec y) = Inr (lift_vec (map2 (-) x y))"
  by (simp add: np_sub_vec_def lift_vec_def map2_np_sub_Fin)

lemma np_dot_vec_vec_Fin:
  "length u = length v \<Longrightarrow>
   np_dot_vec_vec (lift_vec u) (lift_vec v) = Inr (Fin (\<Sum>i<length u. u ! i * v ! i))"
  unfolding np_dot_vec_vec_def lift_vec_def
  by (simp only: map2_np_mul_Fin np_sum_Fin sum_list_map2_nth length_map if_False simp_thms)

lemma np_dot_vec_mat_Fin:
  assumes "length v = length m" and "\<forall>r\<in>set m. length r = ncols m"
  shows "np_dot_vec_mat (lift_vec v) (lift_mat m) =
           Inr (lift_vec (map (\<lambda>j. \<Sum>i<length v. v ! i * m ! i ! j) [0..<ncols m]))"
proof -
  have "np_sum (map2 np_mul (lift_vec v) (column (lift_mat m) j)) =
          Fin (\<Sum>i<length v. v ! i * m ! i ! j)"
    if "j < ncols m" for j
  proof -
    have "column (lift_mat m) j = map Fin (column m j)"
      using assms(2) that by (intro column_lift) simp
    moreover have "length v = length (column m j)"
      using assms(1) by (simp add: column_def)
    moreover have "\<And>i. i < length v \<Longrightarrow> column m j ! i = m ! i ! j"
      using assms(1) by (simp add: column_def)
    ultimately show ?thesis
      unfolding lift_vec_def
      by (simp only: map2_np_mul_Fin np_sum_Fin sum_list_map2_nth) simp
  qed
  then show ?thesis using assms(1)
    by (simp add: np_dot_vec_mat_def ncols_lift length_lift_vec length_lift_mat lift_vec_map)
qed

section \<open>The density\<close>

lemma length_inverse_mat: "length (inverse_mat c) = length c"
  by (simp add: inverse_mat_def)

lemma ncols_inverse_mat: "ncols (inverse_mat c) = length c"
  by (cases c) (simp_all add: ncols_def inverse_mat_def upt_conv_Cons del: upt_Suc)

lemma inverse_mat_rows: "\<forall>r\<in>set (inverse_mat c). length r = ncols (inverse_mat c)"
  unfolding ncols_inverse_mat by (auto simp: inverse_mat_def)

lemma normalisation_constant:
  assumes "0 < (d::real)"
  shows "(2 * pi) powr (- real k / 2) * d powr (- 1 / 2) = 1 / sqrt ((2 * pi) ^ k * d)"
proof -
  have p: "0 < 2 * pi" by simp
  have "(2 * pi) powr (real k / 2) = ((2 * pi) powr real k) powr (1 / 2)"
    by (simp add: powr_powr)
  also have "\<dots> = sqrt ((2 * pi) ^ k)"
    using p by (simp only: powr_realpow powr_half_sqrt zero_le_power less_imp_le)
  finally have a: "(2 * pi) powr (real k / 2) = sqrt ((2 * pi) ^ k)" .
  have b: "d powr (1 / 2) = sqrt d" using assms by (simp add: powr_half_sqrt)
  have "(2 * pi) powr (- real k / 2) = 1 / sqrt ((2 * pi) ^ k)"
    using a powr_minus_divide [of "2 * pi" "real k / 2"] by simp
  moreover have "d powr (- 1 / 2) = 1 / sqrt d"
    using b powr_minus_divide [of d "1 / 2"] by simp
  ultimately show ?thesis
    by (simp add: real_sqrt_mult)
qed

lemma denom_pos:
  "0 < d \<Longrightarrow> np_sqrt (np_mul (Fin ((2 * pi) ^ k)) (Fin d)) = Fin (sqrt ((2 * pi) ^ k * d))"
  by (simp add: not_less)



lemma density_spec_nonneg: "0 \<le> density_spec x mean c"
  unfolding density_spec_def by (intro mult_nonneg_nonneg powr_ge_zero) simp

lemma density_spec_pos: "0 < det c \<Longrightarrow> 0 < density_spec x mean c"
  unfolding density_spec_def by (intro mult_pos_pos) simp_all


lemma density_spec_formula:
  "density_spec x mean c = density_formula x mean (det c) (inverse_mat c)"
  by (simp add: density_spec_def density_formula_def mahalanobis_def quadratic_form_def)


lemma multivariate_gaussian_value:
  assumes "length x = length mean"
    and "np_linalg_det la cov = Inr (Fin d)"
    and "np_linalg_inv la cov = Inr (lift_mat ci)"
    and "length ci = length mean" and "\<forall>row\<in>set ci. length row = length mean"
  shows "multivariate_gaussian la (lift_vec x) (lift_vec mean) cov =
           Inr (np_div (Fin (exp (- (1 / 2) * quadratic_form x mean ci)))
                  (np_sqrt (np_mul (Fin ((2 * pi) ^ length mean)) (Fin d))))"
proof -
  let ?D = "length mean"
  let ?diff = "map2 (-) x mean"
  let ?v = "map (\<lambda>j. \<Sum>i<?D. ?diff ! i * ci ! i ! j) [0..<?D]"
  have ld: "length ?diff = ?D" using assms(1) by simp
  have nc: "ncols ci = ?D"
  proof (cases ci)
    case Nil
    then show ?thesis using assms(4) by (simp add: ncols_def)
  next
    case (Cons r rs)
    then show ?thesis using assms(5) by (simp add: ncols_def)
  qed
  have s: "np_sub_vec (lift_vec x) (lift_vec mean) = Inr (lift_vec ?diff)"
    using assms(1) by (rule np_sub_vec_Fin)
  have vm: "np_dot_vec_mat (lift_vec ?diff) (lift_mat ci) = Inr (lift_vec ?v)"
    using np_dot_vec_mat_Fin [of ?diff ci] ld assms(4,5) by (simp add: nc)
  have vv: "np_dot_vec_vec (lift_vec ?v) (lift_vec ?diff) =
              Inr (Fin (\<Sum>j<?D. ?v ! j * ?diff ! j))"
    using np_dot_vec_vec_Fin [of ?v ?diff] ld by simp
  have "(\<Sum>j<?D. (\<Sum>i<?D. ?diff ! i * ci ! i ! j) * ?diff ! j) =
        (\<Sum>j<?D. \<Sum>i<?D. ?diff ! i * ci ! i ! j * ?diff ! j)"
    by (simp add: sum_distrib_right)
  also have "\<dots> = (\<Sum>i<?D. \<Sum>j<?D. ?diff ! i * ci ! i ! j * ?diff ! j)"
    by (rule sum.swap)
  also have "\<dots> = quadratic_form x mean ci"
    using assms(1) by (simp add: quadratic_form_def)
  finally have q:
    "(\<Sum>j<?D. (\<Sum>i<?D. ?diff ! i * ci ! i ! j) * ?diff ! j) = quadratic_form x mean ci" .
  have e: "np_exp (np_mul (Fin (- (1 / 2))) (Fin (\<Sum>j<?D. ?v ! j * ?diff ! j))) =
             Fin (exp (- (1 / 2) * quadratic_form x mean ci))"
    by (simp add: q)
  show ?thesis
    unfolding multivariate_gaussian_def Let_def length_lift_vec assms(2,3) s vm vv sum.case e
    by (rule refl)
qed


lemma density_formula_value:
  assumes "0 < d"
  shows "np_div (Fin (exp (- (1 / 2) * q))) (np_sqrt (np_mul (Fin ((2 * pi) ^ k)) (Fin d))) =
           Fin ((2 * pi) powr (- real k / 2) * d powr (- 1 / 2) * exp (- (1 / 2) * q))"
  unfolding denom_pos [OF assms] normalisation_constant [OF assms]
  using assms by simp

lemma exact_det_lift: "is_square c \<Longrightarrow> exact_det (Matrix (lift_mat c)) = Inr (Fin (det c))"
  by (simp add: exact_det_def is_square_lift all_fin_lift unlift_lift)

lemma exact_inv_lift:
  "is_square c \<Longrightarrow> det c \<noteq> 0 \<Longrightarrow>
   exact_inv (Matrix (lift_mat c)) = Inr (lift_mat (inverse_mat c))"
  by (simp add: exact_inv_def is_square_lift all_fin_lift unlift_lift)

lemma inverse_mat_row_lengths: "\<forall>row\<in>set (inverse_mat c). length row = length c"
  using inverse_mat_rows [of c] by (simp add: ncols_inverse_mat)

lemma multivariate_gaussian_pos_det:
  assumes "length x = length mean" and "length c = length mean"
    and "is_square c" and "0 < det c"
  shows "multivariate_gaussian exact_linalg (lift_vec x) (lift_vec mean) (Matrix (lift_mat c)) =
           Inr (Fin (density_spec x mean c))"
proof -
  have d: "np_linalg_det exact_linalg (Matrix (lift_mat c)) = Inr (Fin (det c))"
    using assms(3) by (simp add: exact_linalg_def exact_det_lift)
  have i: "np_linalg_inv exact_linalg (Matrix (lift_mat c)) = Inr (lift_mat (inverse_mat c))"
    using assms(3,4) by (simp add: exact_linalg_def exact_inv_lift)
  have r: "\<forall>row\<in>set (inverse_mat c). length row = length mean"
    using inverse_mat_row_lengths [of c] assms(2) by simp
  have l: "length (inverse_mat c) = length mean"
    using assms(2) by (simp add: length_inverse_mat)
  show ?thesis
    unfolding multivariate_gaussian_value [OF assms(1) d i l r]
      density_formula_value [OF assms(4)] density_spec_formula density_formula_def
    by (rule refl)
qed




section \<open>The M-step on a component without mass\<close>

lemma sequence_err_map_Inr:
  "(\<And>x. x \<in> set xs \<Longrightarrow> f x = Inr (g x)) \<Longrightarrow> sequence_err (map f xs) = Inr (map g xs)"
  by (induction xs) simp_all

lemma np_div_zero_not_fin: "\<not> is_fin (np_div x (Fin 0))"
  by (cases x) simp_all

lemma m_step_covariance_zero_mass:
  assumes "i < length means" and "n_k ! i = Fin 0"
  shows "\<exists>c. m_step_covariance data prior_pi n_k means i = Inr (Matrix c) \<and>
             length c = ncols data \<and> list_all (list_all (\<lambda>v. \<not> is_fin v)) c"
  using assms
  by (simp add: m_step_covariance_def Let_def list_all_iff np_div_zero_not_fin)

text \<open>
  Claim C6, as the code has it. \<open>m_step\<close> makes no check of the effective counts.
  For every input whose arrays have the same number of rows and at least
  \<open>num_components\<close> columns of responsibilities, when the effective count \<open>n_k\<close> of a
  component is zero the update does not fail: it divides by \<open>n_k\<close>, and every entry of
  the returned mean and of the returned covariance of that component is \<open>inf\<close>, \<open>-inf\<close>
  or \<open>nan\<close>.
\<close>

theorem m_step_zero_mass_not_finite:
  assumes "length prior_pi = length data"
    and "nat num_components \<le> ncols prior_pi"
    and "k < nat num_components"
    and "np_sum (column prior_pi k) = Fin 0"
  shows "\<exists>weights means covariance c.
           m_step data prior_pi num_components = Inr (weights, means, covariance) \<and>
           covariance ! k = Matrix c \<and>
           length (means ! k) = ncols data \<and> length c = ncols data \<and>
           list_all (\<lambda>v. \<not> is_fin v) (means ! k) \<and>
           list_all (list_all (\<lambda>v. \<not> is_fin v)) c"
proof -
  let ?K = "ncols prior_pi"
  let ?n_k = "map (\<lambda>k. np_sum (column prior_pi k)) [0..<?K]"
  let ?means = "map (\<lambda>k. map (\<lambda>d. np_div (np_sum (map2 np_mul (column prior_pi k) (column data d)))
                                         (?n_k ! k))
                               [0..<ncols data])
                    [0..<?K]"
  let ?f = "m_step_covariance data prior_pi ?n_k ?means"
  have kK: "k < ?K" using assms(2,3) by simp
  have nk: "?n_k ! k = Fin 0" using kK assms(4) by simp
  have ok: "\<exists>c. ?f i = Inr c" if "i < nat num_components" for i
    using that assms(2) by (simp add: m_step_covariance_def Let_def)
  define g where "g i = (case ?f i of Inr c \<Rightarrow> c)" for i
  have fg: "?f i = Inr (g i)" if "i \<in> set [0..<nat num_components]" for i
    using ok [of i] that by (auto simp: g_def)
  have seq: "sequence_err (map ?f [0..<nat num_components]) = Inr (map g [0..<nat num_components])"
    using fg by (rule sequence_err_map_Inr)
  obtain c where c: "?f k = Inr (Matrix c)" "length c = ncols data"
      "list_all (list_all (\<lambda>v. \<not> is_fin v)) c"
    using m_step_covariance_zero_mass [of k ?means ?n_k data prior_pi] kK nk by auto
  have gk: "g k = Matrix c" using c(1) by (simp add: g_def)
  have mk: "list_all (\<lambda>v. \<not> is_fin v) (?means ! k)"
    using kK nk by (simp add: list_all_iff np_div_zero_not_fin del: upt_Suc)
  have "m_step data prior_pi num_components =
          Inr (map (\<lambda>s. np_div s (Fin (real (length data)))) ?n_k, ?means, map g [0..<nat num_components])"
    using assms(1) seq by (simp add: m_step_def Let_def)
  then show ?thesis using gk c(2,3) mk kK assms(3)
    by (intro exI [of _ "map (\<lambda>s. np_div s (Fin (real (length data)))) ?n_k"] exI [of _ ?means]
        exI [of _ "map g [0..<nat num_components]"] exI [of _ c]) simp
qed

theorem m_step_zero_mass_not_finite_witness:
  "np_sum (column (lift_mat [[1, 0], [1, 0]]) 1) = Fin 0 \<and>
   (\<exists>weights means covariance c.
      m_step (lift_mat [[0], [1]]) (lift_mat [[1, 0], [1, 0]]) 2 = Inr (weights, means, covariance) \<and>
      covariance ! 1 = Matrix c \<and> length (means ! 1) = 1 \<and> length c = 1 \<and>
      list_all (\<lambda>v. \<not> is_fin v) (means ! 1) \<and>
      list_all (list_all (\<lambda>v. \<not> is_fin v)) c)"
  using m_step_zero_mass_not_finite [of "lift_mat [[1, 0], [1, 0]]" "lift_mat [[0], [1]]" 2 1]
  by (simp add: ncols_def lift_mat_def column_def np_sum_def)

text \<open>
  The claim as the specification states it fails on two points of which the second
  component takes no responsibility: no error, a weight 0, and \<open>nan\<close> for the mean and
  the covariance of that component.
\<close>

theorem m_step_zero_mass_counterexample:
  "m_step (lift_mat [[0], [1]]) (lift_mat [[1, 0], [1, 0]]) 2 =
     Inr ([Fin 1, Fin 0], [[Fin (1 / 2)], [NaN]], [Matrix [[Fin (1 / 4)]], Matrix [[NaN]]])"
  by (simp add: m_step_def m_step_covariance_def Let_def lift_mat_def ncols_def column_def
      np_sum_def np_sub_def upt_conv_Cons numeral_2_eq_2)

section \<open>Rejected and accepted component counts\<close>

lemma np_random_choice_rejects:
  "sz < 0 \<or> int n < sz \<Longrightarrow> np_random_choice lib g n sz = (Inl ValueError, g)"
  by (auto simp: np_random_choice_def)

text \<open>
  Claim C5, as the code has it. A call with a negative component count, or with more
  components than the dataset has points (so also with an empty dataset and at least
  one component), fails in the initialization, before any iteration, with the
  \<open>ValueError\<close> that \<open>np.random.choice\<close> raises. There is no check of the
  notebook's own, and a component count of 0 is not rejected.
\<close>

theorem gmm_step_rejects_component_count:
  assumes "num_components < 0 \<or> int (length data) < num_components"
  shows "fst (initialize_parameters lib g data num_components) = Inl ValueError \<and>
         fst (gmm_step lib g data num_components max_iters) = Inl ValueError"
  by (simp add: gmm_step_def gmm_run_def initialize_parameters_def Let_def
      np_random_choice_rejects [OF assms])

theorem gmm_step_rejects_component_count_witness:
  "int (length ([] :: mat)) < 1 \<and>
   fst (initialize_parameters notebook_lib 0 [] 1) = Inl ValueError \<and>
   fst (gmm_step notebook_lib 0 [] 1 100) = Inl ValueError"
  using gmm_step_rejects_component_count [of 1 "[]" notebook_lib 0 100]
  by simp

lemma e_step_no_components: "e_step pdf data weights means covariances 0 = Inr (map (\<lambda>n. []) data)"
  by (simp add: e_step_def Let_def map_replicate_const)

lemma ncols_empty_rows: "ncols (map (\<lambda>n. []) data) = 0"
  by (cases data) (simp_all add: ncols_def)

lemma m_step_no_components: "m_step data (map (\<lambda>n. []) data) 0 = Inr ([], [], [])"
  by (simp add: m_step_def Let_def ncols_empty_rows)

lemma gmm_loop_no_components:
  "gmm_loop pdf data 0 n (passes, [], [], []) = Inr (passes + n, [], [], [])"
  by (induction n arbitrary: passes) (simp_all add: e_step_no_components m_step_no_components)

text \<open>
  The claim as the specification states it fails for \<open>K = 0\<close>: every pass works on
  empty arrays and the fit returns an empty model.
\<close>

theorem gmm_step_zero_components_counterexample:
  "fst (gmm_step notebook_lib 0 (lift_mat [[0, 0], [2, 0], [0, 2]]) 0 100) = Inr ([], [], [])"
  by (simp add: gmm_step_def gmm_run_def initialize_parameters_def np_random_choice_def
      notebook_lib_def rotation_permutation_def Let_def lift_mat_def gmm_loop_no_components)

section \<open>Determinism\<close>

text \<open>
  Claim C10. The state \<open>g\<close> in which a call finds numpy's global generator has no
  influence on what the fit returns: \<open>initialize_parameters\<close> replaces it by the
  state of the seed 42 before it draws, and nothing else in the fit draws. Two calls
  with the same data, component count and iteration count return the same weights,
  means and covariances (and leave the generator in the same state).
\<close>

theorem gmm_step_deterministic:
  "gmm_step lib g data num_components max_iters = gmm_step lib g' data num_components max_iters"
  by (simp add: gmm_step_def gmm_run_def initialize_parameters_def)

section \<open>Initialization\<close>

lemma np_random_choice_accepts:
  assumes "0 \<le> sz" and "sz \<le> int n"
    and "np_random_permutation lib g n = (perm, g')"
  shows "np_random_choice lib g n sz = (Inr (take (nat sz) perm), g')"
  using assms by (auto simp: np_random_choice_def)

lemma permutation_length:
  assumes "distinct perm" and "set perm = {..<n}"
  shows "length perm = n"
  using assms distinct_card [of perm] by simp

text \<open>
  Claim C8, as the code has it. For every dataset of \<open>N\<close> points and every component
  count \<open>0 \<le> K \<le> N\<close>, given that \<open>permutation(N)\<close> returns a permutation of
  \<open>0, \<dots>, N - 1\<close>: the means are the points at \<open>K\<close> distinct positions of the dataset
  (a sample without replacement), every covariance is \<open>np.cov\<close> of the dataset, and
  every weight is \<open>1 / K\<close>. The positions are those that the generator draws from the
  state of the seed 42, a constant of the function: the function has no seed
  parameter, the state \<open>g\<close> that the caller left in the global generator does not
  reach the result, and the call leaves the global generator in the state after its
  draw.
\<close>

theorem initialize_parameters_from_fixed_seed:
  assumes "0 \<le> num_components" and "num_components \<le> int (length data)"
    and "np_random_permutation lib (np_random_seed lib 42) (length data) = (perm, g')"
    and "distinct perm" and "set perm = {..<length data}"
  shows "initialize_parameters lib g data num_components =
           (Inr (map (\<lambda>i. data ! i) (take (nat num_components) perm),
                 replicate (nat num_components) (np_cov lib data),
                 replicate (nat num_components) (Fin (1 / of_int num_components))), g')
         \<and> length (take (nat num_components) perm) = nat num_components
         \<and> distinct (take (nat num_components) perm)
         \<and> list_all (\<lambda>i. i < length data) (take (nat num_components) perm)"
proof -
  let ?idx = "take (nat num_components) perm"
  have len: "length perm = length data"
    using assms(4,5) by (rule permutation_length)
  have l: "length ?idx = nat num_components"
    using len assms(2) by simp
  have d: "distinct ?idx"
    using assms(4) by simp
  have r: "list_all (\<lambda>i. i < length data) ?idx"
    using assms(5) set_take_subset [of "nat num_components" perm] by (auto simp: list_all_iff)
  have w: "map (\<lambda>one. np_div one (Fin (of_int num_components))) (replicate (nat num_components) (Fin 1)) =
           replicate (nat num_components) (Fin (1 / of_int num_components))"
    by (cases "num_components = 0") simp_all
  have "initialize_parameters lib g data num_components =
           (Inr (map (\<lambda>i. data ! i) ?idx,
                 replicate (nat num_components) (np_cov lib data),
                 replicate (nat num_components) (Fin (1 / of_int num_components))), g')"
    unfolding initialize_parameters_def Let_def
      np_random_choice_accepts [OF assms(1,2,3)] w
    using r by simp
  then show ?thesis using l d r by simp
qed

lemma sample_cov_eval:
  "sample_cov (lift_mat [[0, 0], [2, 0], [0, 2]]) =
     Matrix [[Fin (4 / 3), Fin (- (2 / 3))], [Fin (- (2 / 3)), Fin (4 / 3)]]"
  by code_simp

lemma rotate_eval: "rotate 42 [0..<3] = [0, 1, 2]" "rotate 1 [0..<3] = [1, 2, 0]" "rotate 2 [0..<3] = [2, 0, 1]"
  by code_simp+

lemma initialize_parameters_eval:
  "initialize_parameters notebook_lib g (lift_mat [[0, 0], [2, 0], [0, 2]]) 1 =
     (Inr ([[Fin 0, Fin 0]],
           [Matrix [[Fin (4 / 3), Fin (- (2 / 3))], [Fin (- (2 / 3)), Fin (4 / 3)]]],
           [Fin 1]), 43)"
proof -
  have "initialize_parameters notebook_lib g (lift_mat [[0, 0], [2, 0], [0, 2]]) 1 =
     (Inr ([lift_mat [[0, 0], [2, 0], [0, 2]] ! 0],
           [sample_cov (lift_mat [[0, 0], [2, 0], [0, 2]])],
           [Fin 1]), 43)"
    by (simp add: initialize_parameters_def np_random_choice_def notebook_lib_def
        rotation_permutation_def Let_def length_lift_mat rotate_eval)
  then show ?thesis
    by (simp add: sample_cov_eval) (simp add: lift_mat_def)
qed

theorem initialize_parameters_from_fixed_seed_witness:
  "np_random_permutation notebook_lib (np_random_seed notebook_lib 42) 3 = ([0, 1, 2], 43) \<and>
   initialize_parameters notebook_lib 7 (lift_mat [[0, 0], [2, 0], [0, 2]]) 2 =
     (Inr ([[Fin 0, Fin 0], [Fin 2, Fin 0]],
           replicate 2 (sample_cov (lift_mat [[0, 0], [2, 0], [0, 2]])),
           [Fin (1 / 2), Fin (1 / 2)]), 43)"
proof -
  let ?data = "lift_mat [[0, 0], [2, 0], [0, 2]]"
  have n: "length ?data = 3"
    by (simp add: length_lift_mat)
  have p: "np_random_permutation notebook_lib (np_random_seed notebook_lib 42) 3 = ([0, 1, 2], 43)"
    by (simp add: notebook_lib_def rotation_permutation_def rotate_eval)
  have s: "set [0, 1, 2 :: nat] = {..<3}"
    by auto
  have "initialize_parameters notebook_lib 7 ?data 2 =
          (Inr (map (\<lambda>i. ?data ! i) (take (nat 2) [0, 1, 2]),
                replicate (nat 2) (np_cov notebook_lib ?data),
                replicate (nat 2) (Fin (1 / of_int 2))), 43)"
    using initialize_parameters_from_fixed_seed [of 2 ?data notebook_lib "[0, 1, 2]" 43 7]
    unfolding n using p s by simp
  moreover have "np_cov notebook_lib = sample_cov"
    by (simp add: notebook_lib_def)
  moreover have "map (\<lambda>i. ?data ! i) (take (nat 2) [0, 1, 2]) = [[Fin 0, Fin 0], [Fin 2, Fin 0]]"
    by (simp add: lift_mat_def numeral_2_eq_2)
  ultimately show ?thesis using p
    by (simp add: numeral_2_eq_2)
qed

text \<open>
  The claim as the specification states it fails on its last part. A caller who has
  seeded the global generator with 1 or with 2, states that select the point 1 and the
  point 2, gets in both cases the point 0 that the seed 42 selects, and finds the
  global generator in the state that follows the draw from seed 42.
\<close>

theorem initialize_parameters_seed_counterexample:
  "fst (np_random_choice notebook_lib (np_random_seed notebook_lib 1) 3 1) = Inr [1] \<and>
   fst (np_random_choice notebook_lib (np_random_seed notebook_lib 2) 3 1) = Inr [2] \<and>
   initialize_parameters notebook_lib (np_random_seed notebook_lib 1)
       (lift_mat [[0, 0], [2, 0], [0, 2]]) 1 =
     (Inr ([[Fin 0, Fin 0]],
           [Matrix [[Fin (4 / 3), Fin (- (2 / 3))], [Fin (- (2 / 3)), Fin (4 / 3)]]],
           [Fin 1]), 43) \<and>
   initialize_parameters notebook_lib (np_random_seed notebook_lib 2)
       (lift_mat [[0, 0], [2, 0], [0, 2]]) 1 =
     (Inr ([[Fin 0, Fin 0]],
           [Matrix [[Fin (4 / 3), Fin (- (2 / 3))], [Fin (- (2 / 3)), Fin (4 / 3)]]],
           [Fin 1]), 43)"
proof -
  have c: "np_random_choice notebook_lib g 3 1 = (Inr (take (nat 1) (rotate g [0..<3])), Suc g)"
    for g
    by (simp add: np_random_choice_def notebook_lib_def rotation_permutation_def)
  have s: "np_random_seed notebook_lib = (\<lambda>s. s)"
    by (simp add: notebook_lib_def)
  have r: "take (nat 1) (rotate 1 [0..<3]) = [1 :: nat]" "take (nat 1) (rotate 2 [0..<3]) = [2 :: nat]"
    by code_simp+
  have "fst (np_random_choice notebook_lib (np_random_seed notebook_lib 1) 3 1) = Inr [1]"
    unfolding s c r by simp
  moreover have "fst (np_random_choice notebook_lib (np_random_seed notebook_lib 2) 3 1) = Inr [2]"
    unfolding s c r by simp
  ultimately show ?thesis
    by (simp add: initialize_parameters_eval)
qed

section \<open>The M-step on finite arrays\<close>

lemma length_column: "length (column m j) = length m"
  by (simp add: column_def)

lemma column_nth: "n < length m \<Longrightarrow> column m j ! n = m ! n ! j"
  by (simp add: column_def)

lemma ncols_rows: "m \<noteq> [] \<Longrightarrow> \<forall>r\<in>set m. length r = c \<Longrightarrow> ncols m = c"
  by (cases m) (simp_all add: ncols_def)

lemma np_sum_map2_mul:
  "length u = length v \<Longrightarrow>
   np_sum (map2 np_mul (map Fin u) (map Fin v)) = Fin (\<Sum>n<length u. u ! n * v ! n)"
  by (simp only: map2_np_mul_Fin np_sum_Fin sum_list_map2_nth)

lemma np_sum_column:
  assumes "\<forall>r\<in>set m. k < length r"
  shows "np_sum (column (lift_mat m) k) = Fin (\<Sum>n<length m. m ! n ! k)"
proof -
  have "sum_list (column m k) = (\<Sum>n<length m. m ! n ! k)"
    by (simp add: sum_list_sum_nth atLeast0LessThan length_column column_nth)
  then show ?thesis
    using column_lift [of m k] assms by (simp add: np_sum_Fin)
qed

lemma np_dot_columns:
  assumes "length a = length b"
    and "\<forall>r\<in>set a. i < length r" and "\<forall>r\<in>set b. j < length r"
  shows "np_sum (map2 np_mul (column (lift_mat a) i) (column (lift_mat b) j)) =
           Fin (\<Sum>n<length a. a ! n ! i * b ! n ! j)"
proof -
  have "np_sum (map2 np_mul (map Fin (column a i)) (map Fin (column b j))) =
          Fin (\<Sum>n<length (column a i). column a i ! n * column b j ! n)"
    using assms(1) by (intro np_sum_map2_mul) (simp add: length_column)
  then show ?thesis
    using column_lift [of a i] column_lift [of b j] assms
    by (simp add: length_column column_nth)
qed



lemma lift_mat_map: "lift_mat (map (\<lambda>d. map (g d) ys) xs) = map (\<lambda>d. map (\<lambda>e. Fin (g d e)) ys) xs"
  by (simp add: lift_mat_def)

lemma m_step_covariance_finite:
  assumes "length r = length x" and "x \<noteq> []"
    and "\<forall>row\<in>set r. length row = K" and "\<forall>row\<in>set x. length row = D"
    and "k < K" and "c \<noteq> 0"
    and "length mu = D" and "k < length means" and "means ! k = lift_vec mu"
    and "n_k ! k = Fin c"
  shows "m_step_covariance (lift_mat x) (lift_mat r) n_k means k =
           Inr (Matrix (lift_mat (map (\<lambda>d. map (\<lambda>e.
              (\<Sum>n<length x. r ! n ! k * ((x ! n ! d - mu ! d) * (x ! n ! e - mu ! e))) / c)
              [0..<D]) [0..<D])))"
proof -
  define df where "df = map (\<lambda>row. map2 (-) row mu) x"
  have ldf: "length df = length x" by (simp add: df_def)
  have rdf: "\<forall>row\<in>set df. length row = D"
    using assms(4,7) by (auto simp: df_def)
  have dfn: "df ! n ! d = x ! n ! d - mu ! d" if "n < length x" "d < D" for n d
    using that assms(4,7) by (simp add: df_def)
  have diff: "map (\<lambda>row. map2 np_sub row (means ! k)) (lift_mat x) = lift_mat df"
    by (simp add: assms(9) lift_mat_def lift_vec_def df_def map2_np_sub_Fin)
  have nc: "ncols (lift_mat x) = D"
    using assms(2,4) by (simp add: ncols_lift ncols_rows)
  have cr: "column (lift_mat r) k = map Fin (column r k)"
    using assms(3,5) by (intro column_lift) simp
  have E: "np_div (np_sum (map2 np_mul (map2 np_mul (column (lift_mat df) d) (column (lift_mat r) k))
                     (column (lift_mat df) e))) (n_k ! k) =
           Fin ((\<Sum>n<length x. r ! n ! k * ((x ! n ! d - mu ! d) * (x ! n ! e - mu ! e))) / c)"
    if "d < D" "e < D" for d e
  proof -
    have cd: "column (lift_mat df) d = map Fin (column df d)"
      using rdf that(1) by (intro column_lift) simp
    have ce: "column (lift_mat df) e = map Fin (column df e)"
      using rdf that(2) by (intro column_lift) simp
    have "np_sum (map2 np_mul (map Fin (map2 (*) (column df d) (column r k))) (map Fin (column df e))) =
          Fin (\<Sum>n<length (map2 (*) (column df d) (column r k)).
                 map2 (*) (column df d) (column r k) ! n * column df e ! n)"
      using assms(1) ldf by (intro np_sum_map2_mul) (simp add: length_column)
    also have "\<dots> = Fin (\<Sum>n<length x. r ! n ! k * ((x ! n ! d - mu ! d) * (x ! n ! e - mu ! e)))"
      using assms(1) ldf that by (simp add: length_column column_nth dfn mult_ac)
    finally show ?thesis
      using assms(6) by (simp add: cd ce cr map2_np_mul_Fin assms(10))
  qed
  show ?thesis
    unfolding m_step_covariance_def Let_def diff nc
    using assms(8) by (simp add: E lift_mat_map comp_def cong: map_cong)
qed

lemma m_step_finite:
  assumes "length r = length x" and "x \<noteq> []"
    and "\<forall>row\<in>set r. length row = K" and "\<forall>row\<in>set x. length row = D"
    and "\<forall>k<K. effective_count r k \<noteq> 0"
  shows "m_step (lift_mat x) (lift_mat r) (int K) =
           Inr (lift_vec (map (weight_spec x r) [0..<K]),
                lift_mat (map (\<lambda>k. map (mean_spec x r k) [0..<D]) [0..<K]),
                map (\<lambda>k. Matrix (lift_mat (map (\<lambda>d. map (covariance_spec x r k d) [0..<D]) [0..<D])))
                  [0..<K])"
proof -
  let ?n_k = "map (\<lambda>k. np_sum (column (lift_mat r) k)) [0..<K]"
  let ?M = "map (\<lambda>k. map (mean_spec x r k) [0..<D]) [0..<K]"
  have rne: "r \<noteq> []" using assms(1,2) by auto
  have ncr: "ncols (lift_mat r) = K"
    using rne assms(3) by (simp add: ncols_lift ncols_rows)
  have ncx: "ncols (lift_mat x) = D"
    using assms(2,4) by (simp add: ncols_lift ncols_rows)
  have nk: "np_sum (column (lift_mat r) k) = Fin (effective_count r k)" if "k < K" for k
    using np_sum_column [of r k] assms(3) that by (simp add: effective_count_def)
  have nk': "?n_k ! k = Fin (effective_count r k)" if "k < K" for k
    using that nk by simp
  have w: "map (\<lambda>s. np_div s (Fin (real (length (lift_mat x))))) ?n_k =
           lift_vec (map (weight_spec x r) [0..<K])"
    using assms(2) by (simp add: nk weight_spec_def lift_vec_def length_lift_mat cong: map_cong)
  have dot: "np_sum (map2 np_mul (column (lift_mat r) k) (column (lift_mat x) d)) =
             Fin (\<Sum>n<length x. r ! n ! k * x ! n ! d)" if "k < K" "d < D" for k d
    using np_dot_columns [of r x k d] assms(1,3,4) that by simp
  have m: "map (\<lambda>k. map (\<lambda>d. np_div (np_sum (map2 np_mul (column (lift_mat r) k) (column (lift_mat x) d)))
                                 (?n_k ! k)) [0..<D]) [0..<K] = lift_mat ?M"
    using assms(5) by (simp add: dot nk mean_spec_def lift_mat_map comp_def cong: map_cong)
  have c: "m_step_covariance (lift_mat x) (lift_mat r) ?n_k (lift_mat ?M) k =
             Inr (Matrix (lift_mat (map (\<lambda>d. map (covariance_spec x r k d) [0..<D]) [0..<D])))"
    if "k \<in> set [0..<K]" for k
  proof -
    have kK: "k < K" using that by simp
    have "m_step_covariance (lift_mat x) (lift_mat r) ?n_k (lift_mat ?M) k =
           Inr (Matrix (lift_mat (map (\<lambda>d. map (\<lambda>e.
              (\<Sum>n<length x. r ! n ! k * ((x ! n ! d - (map (mean_spec x r k) [0..<D]) ! d)
                 * (x ! n ! e - (map (mean_spec x r k) [0..<D]) ! e))) / effective_count r k)
              [0..<D]) [0..<D])))"
      using assms(1-4) kK assms(5) nk' [OF kK]
      by (intro m_step_covariance_finite [where K = K])
         (simp_all add: lift_mat_def lift_vec_def)
    moreover have "map (\<lambda>d. map (\<lambda>e.
              (\<Sum>n<length x. r ! n ! k * ((x ! n ! d - (map (mean_spec x r k) [0..<D]) ! d)
                 * (x ! n ! e - (map (mean_spec x r k) [0..<D]) ! e))) / effective_count r k)
              [0..<D]) [0..<D] = map (\<lambda>d. map (covariance_spec x r k d) [0..<D]) [0..<D]"
      by (intro map_cong refl) (simp add: covariance_spec_def)
    ultimately show ?thesis
      by (simp only:)
  qed
  have seq: "sequence_err (map (m_step_covariance (lift_mat x) (lift_mat r) ?n_k (lift_mat ?M)) [0..<K]) =
      Inr (map (\<lambda>k. Matrix (lift_mat (map (\<lambda>d. map (covariance_spec x r k d) [0..<D]) [0..<D])))
             [0..<K])"
    by (rule sequence_err_map_Inr) (rule c)
  show ?thesis
    unfolding m_step_def Let_def ncr ncx w m nat_int seq
    using assms(1) by (simp add: length_lift_mat)
qed

lemma m_step_empty: "m_step [] [] 0 = Inr ([], [], [])"
  by (simp add: m_step_def Let_def ncols_def)

text \<open>
  Claim C2. For every dataset of \<open>N\<close> points of \<open>D\<close> features and every \<open>N \<times> K\<close> matrix
  of responsibilities, all finite, whose effective counts \<open>n\<^sub>k\<close> are all nonzero, the
  M-step returns for every component the weight \<open>n\<^sub>k / N\<close>, the mean
  \<open>(\<Sum>\<^sub>n r(n,k) \<cdot> x\<^sub>n) / n\<^sub>k\<close> and the covariance
  \<open>(\<Sum>\<^sub>n r(n,k) \<cdot> (x\<^sub>n - mean\<^sub>k)(x\<^sub>n - mean\<^sub>k)\<^sup>T) / n\<^sub>k\<close>, in which \<open>mean\<^sub>k\<close> is the mean
  that this same update has just computed (\<open>covariance_spec\<close> is written with
  \<open>mean_spec\<close>, and \<open>m_step\<close> is not given any earlier mean).
\<close>

theorem m_step_update_formulas:
  assumes "length r = length x"
    and "\<forall>row\<in>set r. length row = K" and "\<forall>row\<in>set x. length row = D"
    and "\<forall>k<K. effective_count r k \<noteq> 0"
  shows "m_step (lift_mat x) (lift_mat r) (int K) =
           Inr (lift_vec (map (weight_spec x r) [0..<K]),
                lift_mat (map (\<lambda>k. map (mean_spec x r k) [0..<D]) [0..<K]),
                map (\<lambda>k. Matrix (lift_mat (map (\<lambda>d. map (covariance_spec x r k d) [0..<D]) [0..<D])))
                  [0..<K])"
proof (cases "x = []")
  case False
  then show ?thesis using assms by (intro m_step_finite) simp_all
next
  case True
  then have r: "r = []" using assms(1) by simp
  have "K = 0"
  proof (rule ccontr)
    assume "K \<noteq> 0"
    then have "effective_count r 0 \<noteq> 0" using assms(4) by simp
    then show False using r by (simp add: effective_count_def)
  qed
  then show ?thesis using True r
    by (simp add: m_step_empty lift_mat_def lift_vec_def)
qed

lemma effective_count_eval:
  "effective_count [[1 / 2, 1 / 2], [3 / 4, 1 / 4], [1 / 4, 3 / 4]] 0 = 3 / 2"
  "effective_count [[1 / 2, 1 / 2], [3 / 4, 1 / 4], [1 / 4, 3 / 4]] 1 = 3 / 2"
  "effective_count [[1 / 2, 1 / 2], [3 / 4, 1 / 4], [1 / 4, 3 / 4]] (Suc 0) = 3 / 2"
  by code_simp+

lemma update_formulas_eval:
  "(lift_vec (map (weight_spec [[0, 0], [2, 0], [0, 2]] [[1 / 2, 1 / 2], [3 / 4, 1 / 4], [1 / 4, 3 / 4]])
       [0..<2]),
    lift_mat (map (\<lambda>k. map (mean_spec [[0, 0], [2, 0], [0, 2]]
                              [[1 / 2, 1 / 2], [3 / 4, 1 / 4], [1 / 4, 3 / 4]] k) [0..<2]) [0..<2]),
    map (\<lambda>k. Matrix (lift_mat (map (\<lambda>d. map (covariance_spec [[0, 0], [2, 0], [0, 2]]
                              [[1 / 2, 1 / 2], [3 / 4, 1 / 4], [1 / 4, 3 / 4]] k d) [0..<2]) [0..<2])))
      [0..<2]) =
   ([Fin (1 / 2), Fin (1 / 2)],
    [[Fin 1, Fin (1 / 3)], [Fin (1 / 3), Fin 1]],
    [Matrix [[Fin 1, Fin (- (1 / 3))], [Fin (- (1 / 3)), Fin (5 / 9)]],
     Matrix [[Fin (5 / 9), Fin (- (1 / 3))], [Fin (- (1 / 3)), Fin 1]]])"
  by code_simp

theorem m_step_update_formulas_witness:
  "effective_count [[1 / 2, 1 / 2], [3 / 4, 1 / 4], [1 / 4, 3 / 4]] 0 = 3 / 2 \<and>
   effective_count [[1 / 2, 1 / 2], [3 / 4, 1 / 4], [1 / 4, 3 / 4]] 1 = 3 / 2 \<and>
   m_step (lift_mat [[0, 0], [2, 0], [0, 2]])
       (lift_mat [[1 / 2, 1 / 2], [3 / 4, 1 / 4], [1 / 4, 3 / 4]]) 2 =
     Inr ([Fin (1 / 2), Fin (1 / 2)],
          [[Fin 1, Fin (1 / 3)], [Fin (1 / 3), Fin 1]],
          [Matrix [[Fin 1, Fin (- (1 / 3))], [Fin (- (1 / 3)), Fin (5 / 9)]],
           Matrix [[Fin (5 / 9), Fin (- (1 / 3))], [Fin (- (1 / 3)), Fin 1]]])"
proof -
  let ?x = "[[0, 0], [2, 0], [0, 2 :: real]]"
  let ?r = "[[1 / 2, 1 / 2], [3 / 4, 1 / 4], [1 / 4, 3 / 4 :: real]]"
  have nz: "\<forall>k<2. effective_count ?r k \<noteq> 0"
    by (simp add: less_2_cases_iff effective_count_eval)
  have "m_step (lift_mat ?x) (lift_mat ?r) (int 2) =
           Inr (lift_vec (map (weight_spec ?x ?r) [0..<2]),
                lift_mat (map (\<lambda>k. map (mean_spec ?x ?r k) [0..<2]) [0..<2]),
                map (\<lambda>k. Matrix (lift_mat (map (\<lambda>d. map (covariance_spec ?x ?r k d) [0..<2]) [0..<2])))
                  [0..<2])"
    using nz by (intro m_step_update_formulas) simp_all
  then show ?thesis
    unfolding update_formulas_eval by (simp add: effective_count_eval)
qed

section \<open>Invariants after the M-step\<close>

lemma effective_count_swap:
  assumes "\<forall>row\<in>set r. length row = K"
  shows "(\<Sum>k<K. effective_count r k) = (\<Sum>n<length r. \<Sum>k<K. r ! n ! k)"
  unfolding effective_count_def by (rule sum.swap)

text \<open>
  Claim C7. After the M-step on a non-empty dataset and a matrix of responsibilities
  (finite, each entry non-negative as the data model has it) whose rows each sum to 1
  and whose effective counts are all positive, the \<open>K\<close> weights are non-negative and
  sum to 1, and every returned covariance is a \<open>D \<times> D\<close> matrix that is symmetric and
  has a non-negative diagonal. The arithmetic is exact, so the sums are exact.
\<close>

theorem m_step_invariants:
  assumes "length r = length x" and "x \<noteq> []"
    and "\<forall>row\<in>set r. length row = K" and "\<forall>row\<in>set x. length row = D"
    and "\<forall>n<length r. \<forall>k<K. 0 \<le> r ! n ! k"
    and "\<forall>n<length r. (\<Sum>k<K. r ! n ! k) = 1"
    and "\<forall>k<K. 0 < effective_count r k"
  shows "\<exists>ws ms cs.
           m_step (lift_mat x) (lift_mat r) (int K) =
             Inr (lift_vec ws, lift_mat ms, map (\<lambda>c. Matrix (lift_mat c)) cs) \<and>
           length ws = K \<and> (\<forall>k<K. 0 \<le> ws ! k) \<and> sum_list ws = 1 \<and>
           length cs = K \<and>
           (\<forall>k<K. length (cs ! k) = D \<and>
              (\<forall>d<D. length (cs ! k ! d) = D \<and> 0 \<le> cs ! k ! d ! d \<and>
                 (\<forall>e<D. cs ! k ! d ! e = cs ! k ! e ! d)))"
proof -
  let ?ws = "map (weight_spec x r) [0..<K]"
  let ?ms = "map (\<lambda>k. map (mean_spec x r k) [0..<D]) [0..<K]"
  let ?cs = "map (\<lambda>k. map (\<lambda>d. map (covariance_spec x r k d) [0..<D]) [0..<D]) [0..<K]"
  have nz: "\<forall>k<K. effective_count r k \<noteq> 0"
    using assms(7) by fastforce
  have run: "m_step (lift_mat x) (lift_mat r) (int K) =
               Inr (lift_vec ?ws, lift_mat ?ms, map (\<lambda>c. Matrix (lift_mat c)) ?cs)"
    using m_step_finite [OF assms(1-4) nz] by (simp add: comp_def)
  have N: "0 < real (length x)" using assms(2) by simp
  have wpos: "\<forall>k<K. 0 \<le> ?ws ! k"
    using assms(7) N by (simp add: weight_spec_def less_imp_le)
  have "sum_list ?ws = (\<Sum>k<K. effective_count r k) / real (length x)"
    by (simp add: sum_list_upt weight_spec_def sum_divide_distrib)
  also have "\<dots> = (\<Sum>n<length r. \<Sum>k<K. r ! n ! k) / real (length x)"
    using effective_count_swap [OF assms(3)] by simp
  also have "\<dots> = 1"
    using assms(1,6) N by simp
  finally have wsum: "sum_list ?ws = 1" .
  have sym: "covariance_spec x r k d e = covariance_spec x r k e d" for k d e
    by (simp add: covariance_spec_def mult.commute)
  have diag: "0 \<le> covariance_spec x r k d d" if "k < K" for k d
  proof -
    have "0 \<le> (\<Sum>n<length x. r ! n ! k * ((x ! n ! d - mean_spec x r k d) * (x ! n ! d - mean_spec x r k d)))"
      using assms(1,5) that by (intro sum_nonneg) (simp add: zero_le_mult_iff)
    then show ?thesis
      using assms(7) that by (simp add: covariance_spec_def less_imp_le)
  qed
  have "length ?ws = K \<and> (\<forall>k<K. 0 \<le> ?ws ! k) \<and> sum_list ?ws = 1 \<and>
           length ?cs = K \<and>
           (\<forall>k<K. length (?cs ! k) = D \<and>
              (\<forall>d<D. length (?cs ! k ! d) = D \<and> 0 \<le> ?cs ! k ! d ! d \<and>
                 (\<forall>e<D. ?cs ! k ! d ! e = ?cs ! k ! e ! d)))"
    using wpos wsum diag sym by simp
  then show ?thesis using run by blast
qed

theorem m_step_invariants_witness:
  "list_all (list_all (\<lambda>v. 0 \<le> v)) [[1 / 2, 1 / 2], [3 / 4, 1 / 4], [1 / 4, 3 / 4 :: real]] \<and>
   list_all (\<lambda>row. sum_list row = 1) [[1 / 2, 1 / 2], [3 / 4, 1 / 4], [1 / 4, 3 / 4 :: real]] \<and>
   effective_count [[1 / 2, 1 / 2], [3 / 4, 1 / 4], [1 / 4, 3 / 4]] 0 = 3 / 2 \<and>
   effective_count [[1 / 2, 1 / 2], [3 / 4, 1 / 4], [1 / 4, 3 / 4]] 1 = 3 / 2 \<and>
   (\<exists>ws ms cs.
      m_step (lift_mat [[0, 0], [2, 0], [0, 2]])
          (lift_mat [[1 / 2, 1 / 2], [3 / 4, 1 / 4], [1 / 4, 3 / 4]]) 2 =
        Inr (lift_vec ws, lift_mat ms, map (\<lambda>c. Matrix (lift_mat c)) cs) \<and>
      length ws = 2 \<and> (\<forall>k<2. 0 \<le> ws ! k) \<and> sum_list ws = 1 \<and>
      length cs = 2 \<and>
      (\<forall>k<2. length (cs ! k) = 2 \<and>
         (\<forall>d<2. length (cs ! k ! d) = 2 \<and> 0 \<le> cs ! k ! d ! d \<and>
            (\<forall>e<2. cs ! k ! d ! e = cs ! k ! e ! d))))"
proof -
  let ?x = "[[0, 0], [2, 0], [0, 2 :: real]]"
  let ?r = "[[1 / 2, 1 / 2], [3 / 4, 1 / 4], [1 / 4, 3 / 4 :: real]]"
  have nn: "\<forall>n<length ?r. \<forall>k<2. 0 \<le> ?r ! n ! k"
    by (simp add: less_2_cases_iff numeral_3_eq_3 less_Suc_eq)
  have rs: "\<forall>n<length ?r. (\<Sum>k<2. ?r ! n ! k) = 1"
    by (simp add: numeral_3_eq_3 numeral_2_eq_2 less_Suc_eq)
  have pos: "\<forall>k<2. 0 < effective_count ?r k"
    by (simp add: less_2_cases_iff effective_count_eval)
  show ?thesis
    using m_step_invariants [of ?r ?x 2 2, OF _ _ _ _ nn rs pos]
    by (simp add: effective_count_eval)
qed

section \<open>The E-step on finite arrays\<close>

lemma np_sum_Fin_upt: "np_sum (map (\<lambda>k. Fin (f k)) [0..<K]) = Fin (\<Sum>k<K. f k)"
  using np_sum_Fin [of "map f [0..<K]"] by (simp add: comp_def sum_list_upt)

lemma e_step_column_finite:
  assumes "k < length ws" and "k < length means" and "k < length covs"
    and "pdf data (means ! k) (covs ! k) = Inr (lift_vec ps)"
    and "length ps = length data"
  shows "e_step_column pdf data (lift_vec ws) means covs k =
           Inr (lift_vec (map (\<lambda>p. ws ! k * p) ps))"
  using assms by (simp add: e_step_column_def lift_vec_def)

lemma e_step_finite:
  assumes "K \<le> length ws" and "K \<le> length means" and "K \<le> length covs"
    and "\<forall>k<K. pdf data (means ! k) (covs ! k) = Inr (lift_vec (dens k))"
    and "\<forall>k<K. length (dens k) = length data"
    and "\<forall>n<length data. (\<Sum>j<K. ws ! j * dens j ! n) \<noteq> 0"
  shows "e_step pdf data (lift_vec ws) means covs (int K) =
           Inr (lift_mat (map (\<lambda>n. map (responsibility ws dens K n) [0..<K]) [0..<length data]))"
proof -
  let ?N = "length data"
  let ?col = "\<lambda>k. lift_vec (map (\<lambda>p. ws ! k * p) (dens k))"
  have col: "e_step_column pdf data (lift_vec ws) means covs k = Inr (?col k)"
    if "k \<in> set [0..<K]" for k
    using that assms by (intro e_step_column_finite) simp_all
  have seq: "sequence_err (map (e_step_column pdf data (lift_vec ws) means covs) [0..<K]) =
               Inr (map ?col [0..<K])"
    using col by (rule sequence_err_map_Inr)
  have row: "map (\<lambda>c. c ! n) (map ?col [0..<K]) = map (\<lambda>k. Fin (ws ! k * dens k ! n)) [0..<K]"
    if "n < ?N" for n
    using that assms(5) by (simp add: lift_vec_def)
  have norm: "map (\<lambda>v. np_div v (np_sum (map (\<lambda>k. Fin (ws ! k * dens k ! n)) [0..<K])))
                (map (\<lambda>k. Fin (ws ! k * dens k ! n)) [0..<K]) =
              map (\<lambda>k. Fin (responsibility ws dens K n k)) [0..<K]"
    if "n < ?N" for n
    using that assms(6) by (simp add: np_sum_Fin_upt responsibility_def)
  define rowf where "rowf n = map (\<lambda>c. c ! n) (map ?col [0..<K])" for n
  have each: "map (\<lambda>v. np_div v (np_sum (rowf n))) (rowf n) =
              map (\<lambda>k. Fin (responsibility ws dens K n k)) [0..<K]"
    if "n \<in> set [0..<?N]" for n
  proof -
    have n: "n < ?N" using that by simp
    show ?thesis unfolding rowf_def row [OF n] by (rule norm [OF n])
  qed
  have "map (\<lambda>row. map (\<lambda>v. np_div v (np_sum row)) row) (map rowf [0..<?N]) =
        map (\<lambda>n. map (\<lambda>k. Fin (responsibility ws dens K n k)) [0..<K]) [0..<?N]"
    unfolding map_map comp_def by (rule map_cong [OF refl]) (rule each)
  moreover have "map rowf [0..<?N] = map (\<lambda>n. map (\<lambda>c. c ! n) (map ?col [0..<K])) [0..<?N]"
    by (simp add: rowf_def)
  ultimately show ?thesis
    unfolding e_step_def Let_def nat_int seq lift_mat_map
    by simp
qed

text \<open>
  Claim C1. Let the weights be finite and non-negative (as the data model has them),
  and let the density function return, for each of the \<open>K\<close> components, the finite and
  non-negative densities \<open>dens k\<close> of the \<open>N\<close> points. If for every point the sum over
  the components of weight times density is positive, the E-step returns the \<open>N \<times> K\<close>
  matrix whose entry \<open>(n, k)\<close> is weight \<open>k\<close> times the density of point \<open>n\<close> under
  component \<open>k\<close>, divided by that sum; every entry lies in \<open>[0, 1]\<close> and every row sums
  to 1.
\<close>

theorem e_step_responsibilities:
  assumes "K \<le> length ws" and "K \<le> length means" and "K \<le> length covs"
    and "\<forall>k<K. pdf data (means ! k) (covs ! k) = Inr (lift_vec (dens k))"
    and "\<forall>k<K. length (dens k) = length data"
    and "\<forall>k<K. 0 \<le> ws ! k"
    and "\<forall>k<K. \<forall>n<length data. 0 \<le> dens k ! n"
    and "\<forall>n<length data. 0 < (\<Sum>j<K. ws ! j * dens j ! n)"
  shows "e_step pdf data (lift_vec ws) means covs (int K) =
           Inr (lift_mat (map (\<lambda>n. map (responsibility ws dens K n) [0..<K]) [0..<length data]))
         \<and> (\<forall>n<length data.
               (\<forall>k<K. 0 \<le> responsibility ws dens K n k \<and> responsibility ws dens K n k \<le> 1)
               \<and> (\<Sum>k<K. responsibility ws dens K n k) = 1)"
proof (intro conjI allI impI)
  have nz: "\<forall>n<length data. (\<Sum>j<K. ws ! j * dens j ! n) \<noteq> 0"
    using assms(8) by fastforce
  show "e_step pdf data (lift_vec ws) means covs (int K) =
           Inr (lift_mat (map (\<lambda>n. map (responsibility ws dens K n) [0..<K]) [0..<length data]))"
    using assms(1-5) nz by (rule e_step_finite)
next
  fix n k assume n: "n < length data" and k: "k < K"
  have t: "0 \<le> ws ! j * dens j ! n" if "j < K" for j
    using that n assms(6,7) by simp
  have s: "0 < (\<Sum>j<K. ws ! j * dens j ! n)" using n assms(8) by simp
  show "0 \<le> responsibility ws dens K n k"
    using t [OF k] s by (simp add: responsibility_def)
  have "ws ! k * dens k ! n \<le> (\<Sum>j<K. ws ! j * dens j ! n)"
    using k t by (intro member_le_sum) simp_all
  then show "responsibility ws dens K n k \<le> 1"
    using s by (simp add: responsibility_def)
next
  fix n assume n: "n < length data"
  have s: "0 < (\<Sum>j<K. ws ! j * dens j ! n)" using n assms(8) by simp
  have "(\<Sum>k<K. responsibility ws dens K n k) =
          (\<Sum>k<K. ws ! k * dens k ! n) / (\<Sum>j<K. ws ! j * dens j ! n)"
    unfolding responsibility_def by (rule sum_divide_distrib [symmetric])
  also have "\<dots> = 1"
    using s by simp
  finally show "(\<Sum>k<K. responsibility ws dens K n k) = 1" .
qed

lemma scratch_pdf_finite:
  assumes "\<forall>x\<in>set xs. length x = length m" and "length c = length m"
    and "is_square c" and "0 < det c"
  shows "scratch_pdf (lift_mat xs) (lift_vec m) (Matrix (lift_mat c)) =
           Inr (lift_vec (map (\<lambda>x. density_spec x m c) xs))"
proof -
  have "multivariate_gaussian exact_linalg (lift_vec x) (lift_vec m) (Matrix (lift_mat c)) =
          Inr (Fin (density_spec x m c))" if "x \<in> set xs" for x
    using that assms by (intro multivariate_gaussian_pos_det) simp_all
  then have "sequence_err (map (\<lambda>x. multivariate_gaussian exact_linalg (lift_vec x) (lift_vec m)
                                   (Matrix (lift_mat c))) xs) =
             Inr (map (\<lambda>x. Fin (density_spec x m c)) xs)"
    by (rule sequence_err_map_Inr)
  moreover have "lift_mat xs = map lift_vec xs"
    by (simp add: lift_mat_def lift_vec_def)
  ultimately show ?thesis
    by (simp add: scratch_pdf_def comp_def lift_vec_map)
qed

lemma det_identity_2: "det [[1, 0], [0, 1]] = 1"
  by (simp add: del_nth_def)

theorem e_step_responsibilities_witness:
  "det [[1, 0], [0, 1]] = 1 \<and>
   e_step scratch_pdf (lift_mat [[0, 0], [2, 0]]) (lift_vec [1 / 2, 1 / 2])
       [lift_vec [0, 0], lift_vec [2, 0]]
       [Matrix (lift_mat [[1, 0], [0, 1]]), Matrix (lift_mat [[1, 0], [0, 1]])] 2 =
     Inr (lift_mat (map (\<lambda>n. map (responsibility [1 / 2, 1 / 2]
             (\<lambda>k. map (\<lambda>x. density_spec x ([[0, 0], [2, 0]] ! k) [[1, 0], [0, 1]]) [[0, 0], [2, 0]])
             2 n) [0..<2]) [0..<2])) \<and>
   list_all (\<lambda>n.
       list_all (\<lambda>k.
           0 \<le> responsibility [1 / 2, 1 / 2]
             (\<lambda>k. map (\<lambda>x. density_spec x ([[0, 0], [2, 0]] ! k) [[1, 0], [0, 1]]) [[0, 0], [2, 0]])
             2 n k \<and>
           responsibility [1 / 2, 1 / 2]
             (\<lambda>k. map (\<lambda>x. density_spec x ([[0, 0], [2, 0]] ! k) [[1, 0], [0, 1]]) [[0, 0], [2, 0]])
             2 n k \<le> 1) [0..<2] \<and>
       (\<Sum>k<2. responsibility [1 / 2, 1 / 2]
             (\<lambda>k. map (\<lambda>x. density_spec x ([[0, 0], [2, 0]] ! k) [[1, 0], [0, 1]]) [[0, 0], [2, 0]])
             2 n k) = 1) [0..<2]"
proof -
  let ?xs = "[[0, 0], [2, 0 :: real]]"
  let ?c = "[[1, 0], [0, 1 :: real]]"
  let ?ws = "[1 / 2, 1 / 2 :: real]"
  let ?means = "[lift_vec [0, 0], lift_vec [2, 0]]"
  let ?covs = "[Matrix (lift_mat ?c), Matrix (lift_mat ?c)]"
  let ?dens = "\<lambda>k. map (\<lambda>x. density_spec x (?xs ! k) ?c) ?xs"
  have n: "length (lift_mat ?xs) = 2"
    by (simp add: length_lift_mat)
  have sq: "is_square ?c"
    by (simp add: is_square_def)
  have dp: "0 < det ?c"
    unfolding det_identity_2 by simp
  have p: "scratch_pdf (lift_mat ?xs) (lift_vec m) (Matrix (lift_mat ?c)) =
             Inr (lift_vec (map (\<lambda>x. density_spec x m ?c) ?xs))" if "length m = 2" for m
    using that sq dp by (intro scratch_pdf_finite) simp_all
  have h4: "\<forall>k<2. scratch_pdf (lift_mat ?xs) (?means ! k) (?covs ! k) = Inr (lift_vec (?dens k))"
    by (simp add: less_2_cases_iff p)
  have h5: "\<forall>k<2. length (?dens k) = length (lift_mat ?xs)"
    by (simp add: n)
  have h6: "\<forall>k<2. 0 \<le> ?ws ! k"
    by (simp add: less_2_cases_iff)
  have h7: "\<forall>k<2. \<forall>n<length (lift_mat ?xs). 0 \<le> ?dens k ! n"
    unfolding n by (simp add: less_2_cases_iff density_spec_nonneg)
  have pos: "0 < density_spec x m ?c" for x m
    using dp by (rule density_spec_pos)
  have h8: "\<forall>n<length (lift_mat ?xs). 0 < (\<Sum>j<2. ?ws ! j * ?dens j ! n)"
    unfolding n by (simp add: numeral_2_eq_2 less_Suc_eq pos add_pos_pos)
  show ?thesis
    using e_step_responsibilities [of 2 ?ws ?means ?covs scratch_pdf "lift_mat ?xs" ?dens,
        OF _ _ _ h4 h5 h6 h7 h8]
    unfolding n det_identity_2 by (simp add: list_all_iff)
qed

section \<open>The iteration budget\<close>

lemma gmm_loop_passes:
  "gmm_loop pdf data num_components n (passes, p) = Inr (passes', p') \<Longrightarrow> passes' = passes + n"
proof (induction n arbitrary: passes p)
  case 0
  then show ?case by simp
next
  case (Suc n)
  obtain weights means covariances where p: "p = (weights, means, covariances)"
    by (cases p) auto
  from Suc.prems obtain q where
    "gmm_loop pdf data num_components n (Suc passes, q) = Inr (passes', p')"
    unfolding p by (auto split: sum.splits)
  then show ?case using Suc.IH by fastforce
qed

text \<open>
  Claim C4, as the code has it. \<open>gmm_step\<close> has no tolerance and no test of
  convergence. For every dataset, component count and iteration count, a run of the
  fit that does not raise has completed exactly \<open>max_iters\<close> passes of E-step and M-step
  (none when \<open>max_iters\<close> is negative): never more than the budget, and never fewer.
\<close>

theorem gmm_run_full_budget:
  assumes "fst (gmm_run lib g data num_components max_iters) = Inr (passes, p)"
  shows "passes = nat max_iters"
proof -
  obtain r g' where i: "initialize_parameters lib g data num_components = (r, g')"
    by (cases "initialize_parameters lib g data num_components") auto
  show ?thesis
  proof (cases r)
    case (Inl e)
    then show ?thesis using assms i by (simp add: gmm_run_def)
  next
    case (Inr q)
    obtain means covariances weights where q: "q = (means, covariances, weights)"
      by (cases q) auto
    have "gmm_loop (multivariate_normal_pdf lib) data num_components (nat max_iters)
            (0, weights, means, covariances) = Inr (passes, p)"
      using assms i Inr q by (simp add: gmm_run_def)
    then show ?thesis using gmm_loop_passes by fastforce
  qed
qed

lemma e_step_single_component:
  assumes "\<forall>x\<in>set xs. length x = length m" and "length c = length m"
    and "is_square c" and "0 < det c"
  shows "e_step scratch_pdf (lift_mat xs) [Fin 1] [lift_vec m] [Matrix (lift_mat c)] 1 =
           Inr (map (\<lambda>x. [Fin 1]) xs)"
proof -
  let ?dens = "\<lambda>k :: nat. map (\<lambda>x. density_spec x m c) xs"
  have pos: "0 < density_spec x m c" for x
    using assms(4) by (rule density_spec_pos)
  have p: "\<forall>k<1. scratch_pdf (lift_mat xs) ([lift_vec m] ! k) ([Matrix (lift_mat c)] ! k) =
             Inr (lift_vec (?dens k))"
    using scratch_pdf_finite [OF assms] by simp
  have nz: "\<forall>n<length (lift_mat xs). (\<Sum>j<1. [1] ! j * ?dens j ! n) \<noteq> 0"
    using pos by (simp add: length_lift_mat less_imp_neq [THEN not_sym])
  have "e_step scratch_pdf (lift_mat xs) (lift_vec [1]) [lift_vec m] [Matrix (lift_mat c)] (int 1) =
          Inr (lift_mat (map (\<lambda>n. map (responsibility [1] ?dens 1 n) [0..<1])
                 [0..<length (lift_mat xs)]))"
    using p nz by (intro e_step_finite) (simp_all add: length_lift_mat)
  moreover have "lift_mat (map (\<lambda>n. map (responsibility [1] ?dens 1 n) [0..<1])
                 [0..<length (lift_mat xs)]) = map (\<lambda>x. [Fin 1]) xs"
    using pos
    by (intro nth_equalityI)
       (simp_all add: lift_mat_def length_lift_mat responsibility_def less_imp_neq [THEN not_sym])
  ultimately show ?thesis
    by (simp add: lift_vec_def)
qed


lemma m_step_single_eval:
  "m_step (lift_mat [[0, 0], [2, 0], [0, 2]]) [[Fin 1], [Fin 1], [Fin 1]] 1 =
     Inr ([Fin 1], [lift_vec [2 / 3, 2 / 3]],
          [Matrix (lift_mat [[8 / 9, - (4 / 9)], [- (4 / 9), 8 / 9]])])"
  by code_simp

lemma det_eval:
  "det [[4 / 3, - (2 / 3)], [- (2 / 3), 4 / 3]] = 4 / 3"
  "det [[8 / 9, - (4 / 9)], [- (4 / 9), 8 / 9]] = 16 / 27"
  by code_simp+

lemma em_pass_eval:
  assumes "c = [[4 / 3, - (2 / 3)], [- (2 / 3), 4 / 3]] \<or> c = [[8 / 9, - (4 / 9)], [- (4 / 9), 8 / 9]]"
    and "length m = 2"
  shows "gmm_loop scratch_pdf (lift_mat [[0, 0], [2, 0], [0, 2]]) 1 (Suc n)
           (passes, [Fin 1], [lift_vec m], [Matrix (lift_mat c)]) =
         gmm_loop scratch_pdf (lift_mat [[0, 0], [2, 0], [0, 2]]) 1 n
           (Suc passes, [Fin 1], [lift_vec [2 / 3, 2 / 3]],
            [Matrix (lift_mat [[8 / 9, - (4 / 9)], [- (4 / 9), 8 / 9]])])"
proof -
  have sq: "is_square c" and l: "length c = length m"
    using assms by (auto simp: is_square_def)
  have d: "0 < det c"
    using assms(1) det_eval by auto
  have e: "e_step scratch_pdf (lift_mat [[0, 0], [2, 0], [0, 2]]) [Fin 1] [lift_vec m]
             [Matrix (lift_mat c)] 1 = Inr [[Fin 1], [Fin 1], [Fin 1]]"
    using e_step_single_component [of "[[0, 0], [2, 0], [0, 2]]" m c] assms(2) l sq d by simp
  show ?thesis
    by (simp add: e m_step_single_eval)
qed

lemma gmm_loop_fixed_point:
  "gmm_loop scratch_pdf (lift_mat [[0, 0], [2, 0], [0, 2]]) 1 n
     (passes, [Fin 1], [lift_vec [2 / 3, 2 / 3]],
      [Matrix (lift_mat [[8 / 9, - (4 / 9)], [- (4 / 9), 8 / 9]])]) =
   Inr (passes + n, [Fin 1], [lift_vec [2 / 3, 2 / 3]],
      [Matrix (lift_mat [[8 / 9, - (4 / 9)], [- (4 / 9), 8 / 9]])])"
proof (induction n arbitrary: passes)
  case 0
  then show ?case by simp
next
  case (Suc n)
  have step: "gmm_loop scratch_pdf (lift_mat [[0, 0], [2, 0], [0, 2]]) 1 (Suc n)
           (passes, [Fin 1], [lift_vec [2 / 3, 2 / 3]],
            [Matrix (lift_mat [[8 / 9, - (4 / 9)], [- (4 / 9), 8 / 9]])]) =
         gmm_loop scratch_pdf (lift_mat [[0, 0], [2, 0], [0, 2]]) 1 n
           (Suc passes, [Fin 1], [lift_vec [2 / 3, 2 / 3]],
            [Matrix (lift_mat [[8 / 9, - (4 / 9)], [- (4 / 9), 8 / 9]])])"
    by (rule em_pass_eval) simp_all
  show ?case
    unfolding step Suc.IH by simp
qed

lemma gmm_run_eval:
  "fst (gmm_run notebook_lib g (lift_mat [[0, 0], [2, 0], [0, 2]]) 1 (int (Suc n))) =
     Inr (Suc n, [Fin 1], [[Fin (2 / 3), Fin (2 / 3)]],
          [Matrix [[Fin (8 / 9), Fin (- (4 / 9))], [Fin (- (4 / 9)), Fin (8 / 9)]]])"
proof -
  have i: "initialize_parameters notebook_lib g (lift_mat [[0, 0], [2, 0], [0, 2]]) 1 =
     (Inr ([lift_vec [0, 0]], [Matrix (lift_mat [[4 / 3, - (2 / 3)], [- (2 / 3), 4 / 3]])], [Fin 1]), 43)"
    unfolding initialize_parameters_eval by (simp add: lift_vec_def lift_mat_def)
  have p: "multivariate_normal_pdf notebook_lib = scratch_pdf"
    by (simp add: notebook_lib_def)
  have "fst (gmm_run notebook_lib g (lift_mat [[0, 0], [2, 0], [0, 2]]) 1 (int (Suc n))) =
          gmm_loop scratch_pdf (lift_mat [[0, 0], [2, 0], [0, 2]]) 1 (Suc n)
            (0, [Fin 1], [lift_vec [0, 0]], [Matrix (lift_mat [[4 / 3, - (2 / 3)], [- (2 / 3), 4 / 3]])])"
    unfolding gmm_run_def i p nat_int by simp
  also have "\<dots> = gmm_loop scratch_pdf (lift_mat [[0, 0], [2, 0], [0, 2]]) 1 n
           (Suc 0, [Fin 1], [lift_vec [2 / 3, 2 / 3]],
            [Matrix (lift_mat [[8 / 9, - (4 / 9)], [- (4 / 9), 8 / 9]])])"
    by (rule em_pass_eval) simp_all
  also have "\<dots> = Inr (Suc n, [Fin 1], [lift_vec [2 / 3, 2 / 3]],
      [Matrix (lift_mat [[8 / 9, - (4 / 9)], [- (4 / 9), 8 / 9]])])"
    unfolding gmm_loop_fixed_point by simp
  finally show ?thesis
    by (simp add: lift_vec_def lift_mat_def)
qed

theorem gmm_run_full_budget_witness:
  "fst (gmm_run notebook_lib 0 (lift_mat [[0, 0], [2, 0], [0, 2]]) 1 2) =
     Inr (nat 2, [Fin 1], [[Fin (2 / 3), Fin (2 / 3)]],
          [Matrix [[Fin (8 / 9), Fin (- (4 / 9))], [Fin (- (4 / 9)), Fin (8 / 9)]]])"
proof -
  have r: "fst (gmm_run notebook_lib 0 (lift_mat [[0, 0], [2, 0], [0, 2]]) 1 2) =
     Inr (2, [Fin 1], [[Fin (2 / 3), Fin (2 / 3)]],
          [Matrix [[Fin (8 / 9), Fin (- (4 / 9))], [Fin (- (4 / 9)), Fin (8 / 9)]]])"
    using gmm_run_eval [of 0 1] by simp
  show ?thesis
    using gmm_run_full_budget [OF r] r by simp
qed

text \<open>
  The claim as the specification states it fails on three points and one component.
  The first pass reaches the mean and the covariance of the dataset, and every later
  pass returns the same weights, means and covariances: successive parameter values
  differ by 0, less than any positive tolerance, from the second pass on. With a
  budget of 100 the loop still completes 100 passes.
\<close>

theorem gmm_run_no_early_stop_counterexample:
  "fst (gmm_run notebook_lib 0 (lift_mat [[0, 0], [2, 0], [0, 2]]) 1 1) =
     Inr (1, [Fin 1], [[Fin (2 / 3), Fin (2 / 3)]],
          [Matrix [[Fin (8 / 9), Fin (- (4 / 9))], [Fin (- (4 / 9)), Fin (8 / 9)]]]) \<and>
   fst (gmm_run notebook_lib 0 (lift_mat [[0, 0], [2, 0], [0, 2]]) 1 2) =
     Inr (2, [Fin 1], [[Fin (2 / 3), Fin (2 / 3)]],
          [Matrix [[Fin (8 / 9), Fin (- (4 / 9))], [Fin (- (4 / 9)), Fin (8 / 9)]]]) \<and>
   fst (gmm_run notebook_lib 0 (lift_mat [[0, 0], [2, 0], [0, 2]]) 1 100) =
     Inr (100, [Fin 1], [[Fin (2 / 3), Fin (2 / 3)]],
          [Matrix [[Fin (8 / 9), Fin (- (4 / 9))], [Fin (- (4 / 9)), Fin (8 / 9)]]])"
  using gmm_run_eval [of 0 0] gmm_run_eval [of 0 1] gmm_run_eval [of 0 99] by simp

end
